theory Spec2Isabelle
  imports Complex_Main "HOL-Library.Sublist" "HOL-Library.Log_Nat"
begin

section \<open>JavaScript values\<close>

text \<open>
  The dealership front end is written in JavaScript. Its values are modelled by the
  datatypes below. A number is a \<open>jsnum\<close>: \<open>NaN\<close>, one of the two infinities, or a
  finite value. Finite values are rationals, which hold every binary64 value; comparing
  them is exact, and the result of a subtraction is rounded to binary64 as the language
  rounds it (\<open>round64\<close>).

  A string is a \<open>string\<close> of 8-bit characters. \<open>trim\<close> strips the white space
  characters of that range (tab, line feed, vertical tab, form feed, carriage return,
  space) and \<open>toLowerCase\<close> maps \<open>A\<close>..\<open>Z\<close> to \<open>a\<close>..\<open>z\<close>.
\<close>

datatype jsnum = NaN | PosInf | NegInf | Fin rat

datatype jsval = JUndefined | JNull | JBool bool | JNum jsnum | JStr string

text \<open>
  What the validators and the storage can raise: a \<open>TypeError\<close> when a missing method
  is called, a \<open>SecurityError\<close> when the browser refuses access to \<open>localStorage\<close>.
\<close>

datatype js_error = TypeError | SecurityError

text \<open>\<open>Number.isFinite\<close> on a number.\<close>

fun isFinite :: "jsnum \<Rightarrow> bool" where
  "isFinite (Fin _) = True"
| "isFinite _ = False"

subsection \<open>Rounding to binary64\<close>

text \<open>
  A finite binary64 value is \<open>m * 2^e\<close> with \<open>|m| < 2^53\<close> and
  \<open>-1074 \<le> e \<le> 971\<close>. An exact result \<open>x\<close> is rounded to the nearest such value,
  a tie going to the even \<open>m\<close>: with \<open>2^k \<le> |x| < 2^(k+1)\<close> (\<open>k\<close> is the binade of
  \<open>x\<close>), the neighbours of \<open>x\<close> are multiples of \<open>2^(k-52)\<close>, or of \<open>2^(-1074)\<close> in the
  subnormal range. A result of magnitude \<open>2^1024\<close> or more after rounding is an
  infinity.
\<close>

text \<open>The nearest integer, a tie going to the even one.\<close>

definition roundEven :: "rat \<Rightarrow> int" where
  "roundEven y =
     (let f = \<lfloor>y\<rfloor>; d = y - of_int f
      in if d < 1 / 2 then f
         else if 1 / 2 < d then f + 1
         else if even f then f else f + 1)"

text \<open>
  The binade of \<open>x \<noteq> 0\<close>, from the bit lengths of numerator and denominator of
  \<open>|x|\<close>, which fix it up to one.
\<close>

definition binade :: "rat \<Rightarrow> int" where
  "binade x =
     (let (n, d) = quotient_of \<bar>x\<bar>; k = bitlen n - bitlen d
      in if 2 powi k \<le> \<bar>x\<bar> then k else k - 1)"

definition ulpExponent :: "rat \<Rightarrow> int" where
  "ulpExponent x = max (binade x - 52) (- 1074)"

definition nearest :: "rat \<Rightarrow> rat" where
  "nearest x =
     (if x = 0 then 0
      else of_int (roundEven (x / 2 powi ulpExponent x)) * 2 powi ulpExponent x)"

definition round64 :: "rat \<Rightarrow> jsnum" where
  "round64 x =
     (if 2 powi 1024 \<le> nearest x then PosInf
      else if nearest x \<le> - (2 powi 1024) then NegInf
      else Fin (nearest x))"

text \<open>A number that is a binary64 value: rounding leaves it as it is.\<close>

fun isDouble :: "jsnum \<Rightarrow> bool" where
  "isDouble (Fin q) = (round64 q = Fin q)"
| "isDouble _ = True"

text \<open>
  Subtraction of numbers: the exact difference, rounded, with the IEEE rules for
  \<open>NaN\<close> and the infinities.
\<close>

fun js_minus :: "jsnum \<Rightarrow> jsnum \<Rightarrow> jsnum" where
  "js_minus NaN _ = NaN"
| "js_minus _ NaN = NaN"
| "js_minus (Fin a) (Fin b) = round64 (a - b)"
| "js_minus (Fin _) PosInf = NegInf"
| "js_minus (Fin _) NegInf = PosInf"
| "js_minus PosInf PosInf = NaN"
| "js_minus PosInf _ = PosInf"
| "js_minus NegInf NegInf = NaN"
| "js_minus NegInf _ = NegInf"

text \<open>The comparisons \<open>a < b\<close> and \<open>a <= b\<close>: false as soon as one side is \<open>NaN\<close>.\<close>

fun js_less :: "jsnum \<Rightarrow> jsnum \<Rightarrow> bool" where
  "js_less NaN _ = False"
| "js_less _ NaN = False"
| "js_less (Fin a) (Fin b) = (a < b)"
| "js_less PosInf _ = False"
| "js_less _ PosInf = True"
| "js_less _ NegInf = False"
| "js_less NegInf _ = True"

fun js_le :: "jsnum \<Rightarrow> jsnum \<Rightarrow> bool" where
  "js_le NaN _ = False"
| "js_le _ NaN = False"
| "js_le (Fin a) (Fin b) = (a \<le> b)"
| "js_le _ PosInf = True"
| "js_le NegInf _ = True"
| "js_le PosInf _ = False"
| "js_le _ NegInf = False"

text \<open>Truthiness, as \<open>!v\<close>, \<open>v || w\<close> and \<open>if (v)\<close> read it.\<close>

fun truthy_num :: "jsnum \<Rightarrow> bool" where
  "truthy_num NaN = False"
| "truthy_num (Fin q) = (q \<noteq> 0)"
| "truthy_num _ = True"

fun truthy :: "jsval \<Rightarrow> bool" where
  "truthy JUndefined = False"
| "truthy JNull = False"
| "truthy (JBool b) = b"
| "truthy (JNum n) = truthy_num n"
| "truthy (JStr s) = (s \<noteq> [])"

text \<open>\<open>v || w\<close>.\<close>

definition js_or :: "jsval \<Rightarrow> jsval \<Rightarrow> jsval" where
  "js_or v w = (if truthy v then v else w)"

text \<open>\<open>n || 0\<close> on a number \<open>n\<close>.\<close>

definition num_or_zero :: "jsnum \<Rightarrow> jsnum" where
  "num_or_zero n = (if truthy_num n then n else Fin 0)"

text \<open>
  Strict equality \<open>v === w\<close> of primitive values: equal values of one type, and
  \<open>NaN\<close> equal to nothing.
\<close>

fun strictEq :: "jsval \<Rightarrow> jsval \<Rightarrow> bool" where
  "strictEq (JNum a) (JNum b) = (a = b \<and> a \<noteq> NaN)"
| "strictEq v w = (v = w)"

text \<open>
  Two conversions of the library are left open, and every function that needs one takes
  it as a parameter: \<open>N\<close>, the number a string denotes (\<open>Number(s)\<close>, with the
  numeric-literal grammar and the rounding to a double), and \<open>S\<close>, the text of a
  finite number (\<open>String(n)\<close>, the shortest text that reads back). The other cases of
  \<open>Number(v)\<close> and \<open>String(v)\<close> are fixed.
\<close>

fun toNumber :: "(string \<Rightarrow> jsnum) \<Rightarrow> jsval \<Rightarrow> jsnum" where
  "toNumber N JUndefined = NaN"
| "toNumber N JNull = Fin 0"
| "toNumber N (JBool b) = Fin (if b then 1 else 0)"
| "toNumber N (JNum n) = n"
| "toNumber N (JStr s) = N s"

fun numToString :: "(rat \<Rightarrow> string) \<Rightarrow> jsnum \<Rightarrow> string" where
  "numToString S NaN = ''NaN''"
| "numToString S PosInf = ''Infinity''"
| "numToString S NegInf = ''-Infinity''"
| "numToString S (Fin q) = S q"

fun toString :: "(rat \<Rightarrow> string) \<Rightarrow> jsval \<Rightarrow> string" where
  "toString S JUndefined = ''undefined''"
| "toString S JNull = ''null''"
| "toString S (JBool b) = (if b then ''true'' else ''false'')"
| "toString S (JNum n) = numToString S n"
| "toString S (JStr s) = s"

text \<open>
  An instance of \<open>S\<close> for the examples; one of \<open>N\<close> follows the string
  functions. Both agree with the library on unsigned decimal integers, the only
  numerals the examples convert. \<open>decimal\<close> also prints the status of a response.
\<close>

fun decimal :: "nat \<Rightarrow> string" where
  "decimal n =
     (if n < 10 then [''0123456789'' ! n]
      else decimal (n div 10) @ [''0123456789'' ! (n mod 10)])"

definition digitValue :: "char \<Rightarrow> nat" where
  "digitValue c = of_char c - 48"

definition decimalString :: "rat \<Rightarrow> string" where
  "decimalString q = (if 0 \<le> q \<and> q = of_int \<lfloor>q\<rfloor> then decimal (nat \<lfloor>q\<rfloor>) else ''?'')"

subsection \<open>Strings\<close>

definition isSpace :: "char \<Rightarrow> bool" where
  "isSpace c = (c = CHR 0x09 \<or> c = CHR 0x0A \<or> c = CHR 0x0B \<or> c = CHR 0x0C
     \<or> c = CHR 0x0D \<or> c = CHR 0x20)"

definition isDigit :: "char \<Rightarrow> bool" where
  "isDigit c = (48 \<le> (of_char c :: nat) \<and> (of_char c :: nat) \<le> 57)"

definition trim :: "string \<Rightarrow> string" where
  "trim s = rev (dropWhile isSpace (rev (dropWhile isSpace s)))"

definition lowerChar :: "char \<Rightarrow> char" where
  "lowerChar c =
     (case map_of (zip ''ABCDEFGHIJKLMNOPQRSTUVWXYZ'' ''abcdefghijklmnopqrstuvwxyz'') c of
        None \<Rightarrow> c
      | Some d \<Rightarrow> d)"

definition toLowerCase :: "string \<Rightarrow> string" where
  "toLowerCase s = map lowerChar s"

text \<open>
  Calling \<open>v.trim()\<close>: only a string has the method. On any other value the property
  read gives \<open>undefined\<close> and the call raises (reading it on \<open>undefined\<close> or \<open>null\<close>
  raises already).
\<close>

fun call_trim :: "jsval \<Rightarrow> js_error + string" where
  "call_trim (JStr s) = Inr (trim s)"
| "call_trim _ = Inl TypeError"

text \<open>The instance of \<open>N\<close> for the examples.\<close>

definition decimalNumber :: "string \<Rightarrow> jsnum" where
  "decimalNumber s =
     (let t = trim s in
      if t = [] then Fin 0
      else if list_all isDigit t
      then Fin (of_nat (foldl (\<lambda>a c. 10 * a + digitValue c) 0 t))
      else NaN)"

section \<open>Regular expressions\<close>

text \<open>
  The two patterns of \<open>utils/validation.js\<close> are anchored at both ends and use only
  character classes, concatenation and bounded-below repetition, so \<open>RegExp.test\<close>
  decides membership in a regular language. The matcher takes derivatives.
\<close>

datatype regex =
    Nothing
  | Epsilon
  | Class "char \<Rightarrow> bool"
  | Seq regex regex
  | Alt regex regex
  | Star regex

fun nullable :: "regex \<Rightarrow> bool" where
  "nullable Nothing = False"
| "nullable Epsilon = True"
| "nullable (Class _) = False"
| "nullable (Seq r s) = (nullable r \<and> nullable s)"
| "nullable (Alt r s) = (nullable r \<or> nullable s)"
| "nullable (Star _) = True"

fun deriv :: "char \<Rightarrow> regex \<Rightarrow> regex" where
  "deriv c Nothing = Nothing"
| "deriv c Epsilon = Nothing"
| "deriv c (Class P) = (if P c then Epsilon else Nothing)"
| "deriv c (Seq r s) =
     (if nullable r then Alt (Seq (deriv c r) s) (deriv c s) else Seq (deriv c r) s)"
| "deriv c (Alt r s) = Alt (deriv c r) (deriv c s)"
| "deriv c (Star r) = Seq (deriv c r) (Star r)"

fun regex_test :: "regex \<Rightarrow> string \<Rightarrow> bool" where
  "regex_test r [] = nullable r"
| "regex_test r (c # cs) = regex_test (deriv c r) cs"

text \<open>\<open>r{n,}\<close>: at least \<open>n\<close> repetitions; \<open>r+\<close> is \<open>r{1,}\<close>.\<close>

fun atLeast_times :: "nat \<Rightarrow> regex \<Rightarrow> regex" where
  "atLeast_times 0 r = Star r"
| "atLeast_times (Suc n) r = Seq r (atLeast_times n r)"

text \<open>The class \<open>[^\s@]\<close>.\<close>

definition notSpaceAt :: "char \<Rightarrow> bool" where
  "notSpaceAt c = (\<not> isSpace c \<and> c \<noteq> CHR ''@'')"

text \<open>The class \<open>[+()\-.\s\d]\<close>.\<close>

definition phoneChar :: "char \<Rightarrow> bool" where
  "phoneChar c = (c = CHR ''+'' \<or> c = CHR ''('' \<or> c = CHR '')'' \<or> c = CHR ''-''
     \<or> c = CHR ''.'' \<or> isSpace c \<or> isDigit c)"

text \<open>
  \<open>/^[^\s@]+@[^\s@]+\.[^\s@]{2,}$/i\<close>. The flag \<open>i\<close> changes nothing: the pattern
  names no letter.
\<close>

definition EMAIL_RE :: regex where
  "EMAIL_RE =
     Seq (atLeast_times 1 (Class notSpaceAt))
       (Seq (Class (\<lambda>c. c = CHR ''@''))
         (Seq (atLeast_times 1 (Class notSpaceAt))
           (Seq (Class (\<lambda>c. c = CHR ''.''))
             (atLeast_times 2 (Class notSpaceAt)))))"

text \<open>\<open>/^[+()\-.\s\d]{7,}$/\<close>.\<close>

definition PHONE_RE :: regex where
  "PHONE_RE = atLeast_times 7 (Class phoneChar)"

text \<open>
  The language of a pattern, for the proofs: what the matcher is shown to decide.
\<close>

definition conc :: "string set \<Rightarrow> string set \<Rightarrow> string set" where
  "conc A B = {u @ v | u v. u \<in> A \<and> v \<in> B}"

inductive_set star :: "string set \<Rightarrow> string set" for A :: "string set" where
  star_empty: "[] \<in> star A"
| star_step: "u \<in> A \<Longrightarrow> v \<in> star A \<Longrightarrow> u @ v \<in> star A"

fun lang :: "regex \<Rightarrow> string set" where
  "lang Nothing = {}"
| "lang Epsilon = {[]}"
| "lang (Class P) = {[c] | c. P c}"
| "lang (Seq r s) = conc (lang r) (lang s)"
| "lang (Alt r s) = lang r \<union> lang s"
| "lang (Star r) = star (lang r)"

section \<open>Field validators (utils/validation.js)\<close>

text \<open>
  A validator returns its message (the empty string when the value is valid) on the
  right, and what it raises on the left.
\<close>

definition validateRequired :: "jsval \<Rightarrow> js_error + string" where
  "validateRequired v =
     (case v of
        JStr s \<Rightarrow>
          if trim s = [] then Inr ''This field is required.'' else Inr []
      | _ \<Rightarrow> Inr ''This field is required.'')"

definition validateEmail :: "jsval \<Rightarrow> js_error + string" where
  "validateEmail v =
     (case validateRequired v of
        Inl e \<Rightarrow> Inl e
      | Inr req \<Rightarrow>
          if req \<noteq> [] then Inr req
          else (case call_trim v of
                  Inl e \<Rightarrow> Inl e
                | Inr t \<Rightarrow>
                    if \<not> regex_test EMAIL_RE t then Inr ''Enter a valid email address.''
                    else Inr []))"

definition validatePhoneOptional :: "jsval \<Rightarrow> js_error + string" where
  "validatePhoneOptional v =
     (case call_trim (js_or v (JStr [])) of
        Inl e \<Rightarrow> Inl e
      | Inr t \<Rightarrow>
          if t = [] then Inr []
          else if \<not> regex_test PHONE_RE t then Inr ''Enter a valid phone number.''
          else Inr [])"

text \<open>
  \<open>validateMinLen(value, min, fieldName = "This field")\<close>. The bound is a number;
  \<open>None\<close> for the name is the argument left out.
\<close>

definition validateMinLen ::
  "(rat \<Rightarrow> string) \<Rightarrow> jsval \<Rightarrow> jsnum \<Rightarrow> string option \<Rightarrow> js_error + string" where
  "validateMinLen S v minLen fieldName =
     (case call_trim (js_or v (JStr [])) of
        Inl e \<Rightarrow> Inl e
      | Inr t \<Rightarrow>
          if js_less (Fin (of_nat (length t))) minLen
          then Inr ((case fieldName of None \<Rightarrow> ''This field'' | Some f \<Rightarrow> f)
                 @ '' must be at least '' @ numToString S minLen @ '' characters.'')
          else Inr [])"

text \<open>
  The phone pattern as the specification words it: only digits, white space,
  parentheses, \<open>+\<close>, \<open>-\<close> and \<open>.\<close>, and at least seven characters.
\<close>

definition phoneAllowed :: "char \<Rightarrow> bool" where
  "phoneAllowed c = (isDigit c \<or> isSpace c \<or> c = CHR ''('' \<or> c = CHR '')'' \<or> c = CHR ''+''
     \<or> c = CHR ''-'' \<or> c = CHR ''.'')"

definition phonePattern :: "string \<Rightarrow> bool" where
  "phonePattern s = (list_all phoneAllowed s \<and> 7 \<le> length s)"

section \<open>Lead throttle (utils/leadThrottle.js)\<close>

text \<open>
  \<open>localStorage\<close> either refuses every access, raising, or holds strings under keys.
  \<open>Date.now()\<close> is the argument \<open>now\<close>.
\<close>

datatype storage = Unavailable | Available "string \<rightharpoonup> string"

definition getItem :: "storage \<Rightarrow> string \<Rightarrow> js_error + string option" where
  "getItem st k = (case st of Unavailable \<Rightarrow> Inl SecurityError | Available m \<Rightarrow> Inr (m k))"

definition setItem :: "storage \<Rightarrow> string \<Rightarrow> string \<Rightarrow> js_error + storage" where
  "setItem st k v =
     (case st of Unavailable \<Rightarrow> Inl SecurityError | Available m \<Rightarrow> Inr (Available (m(k \<mapsto> v))))"

definition STORAGE_KEY :: string where
  "STORAGE_KEY = ''pcd_lastLeadSubmissionAt''"

definition DEFAULT_WINDOW_MS :: rat where
  "DEFAULT_WINDOW_MS = 24 * 60 * 60 * 1000"

text \<open>The body of the \<open>try\<close> block of \<open>getLeadSubmissionCooldownRemainingMs\<close>.\<close>

definition cooldownRemaining ::
  "(string \<Rightarrow> jsnum) \<Rightarrow> storage \<Rightarrow> rat \<Rightarrow> jsnum \<Rightarrow> js_error + jsnum" where
  "cooldownRemaining N st now windowMs =
     (case getItem st STORAGE_KEY of
        Inl e \<Rightarrow> Inl e
      | Inr None \<Rightarrow> Inr (Fin 0)
      | Inr (Some raw) \<Rightarrow>
          if raw = [] then Inr (Fin 0)
          else
            let ts = N raw in
            if \<not> isFinite ts then Inr (Fin 0)
            else
              let elapsed = js_minus (Fin now) ts;
                  remaining = js_minus windowMs elapsed
              in Inr (if js_less (Fin 0) remaining then remaining else Fin 0))"

text \<open>
  \<open>getLeadSubmissionCooldownRemainingMs(windowMs = DEFAULT_WINDOW_MS)\<close>: \<open>None\<close> is the
  argument left out. The \<open>catch\<close> turns whatever the body raises into \<open>0\<close>.
\<close>

definition effectiveWindow :: "jsnum option \<Rightarrow> jsnum" where
  "effectiveWindow windowMs = (case windowMs of None \<Rightarrow> Fin DEFAULT_WINDOW_MS | Some w \<Rightarrow> w)"

definition getLeadSubmissionCooldownRemainingMs ::
  "(string \<Rightarrow> jsnum) \<Rightarrow> storage \<Rightarrow> rat \<Rightarrow> jsnum option \<Rightarrow> js_error + jsnum" where
  "getLeadSubmissionCooldownRemainingMs N st now windowMs =
     (case cooldownRemaining N st now (effectiveWindow windowMs) of
        Inl e \<Rightarrow> Inr (Fin 0)
      | Inr r \<Rightarrow> Inr r)"

text \<open>\<open>markLeadSubmitted\<close>: a refused write is ignored.\<close>

definition markLeadSubmitted :: "(rat \<Rightarrow> string) \<Rightarrow> storage \<Rightarrow> rat \<Rightarrow> storage" where
  "markLeadSubmitted S st now =
     (case setItem st STORAGE_KEY (numToString S (Fin now)) of
        Inl e \<Rightarrow> st
      | Inr st' \<Rightarrow> st')"

section \<open>Inventory filter (App.js)\<close>

text \<open>
  A vehicle record, by the six properties the filter reads. Each holds a primitive
  value; \<open>JUndefined\<close> is the property left out. The property \<open>make\<close> is the
  field \<open>carMake\<close>. The elements of the inventory are records: the \<open>?.\<close> of
  \<open>car?.title\<close>, which guards an element that is \<open>null\<close>, has nothing to guard.
\<close>

record car =
  title :: jsval
  carMake :: jsval
  model :: jsval
  body :: jsval
  year :: jsval
  price :: jsval

text \<open>The component's \<open>filters\<close> state: \<open>{query, make, body, maxPrice}\<close>.\<close>

record filters =
  query :: jsval
  makeFilter :: jsval
  bodyFilter :: jsval
  maxPrice :: jsval

text \<open>\<open>normalizeStr(v)\<close> is \<open>(v || "").toString().trim().toLowerCase()\<close>.\<close>

definition normalizeStr :: "(rat \<Rightarrow> string) \<Rightarrow> jsval \<Rightarrow> string" where
  "normalizeStr S v = toLowerCase (trim (toString S (js_or v (JStr []))))"

text \<open>
  The template literal of the haystack: each property, or the empty string when it is
  falsy, converted to text and joined by single spaces.
\<close>

definition haystackText :: "(rat \<Rightarrow> string) \<Rightarrow> car \<Rightarrow> string" where
  "haystackText S c =
     toString S (js_or (title c) (JStr [])) @ '' '' @
     toString S (js_or (carMake c) (JStr [])) @ '' '' @
     toString S (js_or (model c) (JStr [])) @ '' '' @
     toString S (js_or (body c) (JStr [])) @ '' '' @
     toString S (js_or (year c) (JStr []))"

text \<open>The \<open>useMemo\<close> body computing \<open>filteredInventory\<close>.\<close>

definition filteredInventory ::
  "(string \<Rightarrow> jsnum) \<Rightarrow> (rat \<Rightarrow> string) \<Rightarrow> filters \<Rightarrow> car list \<Rightarrow> car list" where
  "filteredInventory N S f cars =
     (let q = normalizeStr S (query f);
          max = (if strictEq (maxPrice f) (JStr ''Any'') then PosInf
                 else toNumber N (maxPrice f))
      in filter
           (\<lambda>c.
              let makeOk = (strictEq (makeFilter f) (JStr ''All'') \<or> strictEq (carMake c) (makeFilter f));
                  bodyOk = (strictEq (bodyFilter f) (JStr ''All'') \<or> strictEq (body c) (bodyFilter f));
                  priceNum = toNumber N (price c);
                  priceOk = (if \<not> isFinite max then True else js_le (num_or_zero priceNum) max);
                  haystack = normalizeStr S (JStr (haystackText S c));
                  qOk = (q = [] \<or> sublist q haystack)
              in makeOk \<and> bodyOk \<and> priceOk \<and> qOk)
           cars)"

text \<open>
  The inclusion condition as the specification words it. A property "defaults to the
  empty string" when it is falsy; a "non-numeric" price is one that converts to
  \<open>NaN\<close>; "equals exactly" is strict equality.
\<close>

definition defaultText :: "(rat \<Rightarrow> string) \<Rightarrow> jsval \<Rightarrow> string" where
  "defaultText S v = (if truthy v then toString S v else [])"

fun joinSpaces :: "string list \<Rightarrow> string" where
  "joinSpaces [] = []"
| "joinSpaces [x] = x"
| "joinSpaces (x # y # ys) = x @ '' '' @ joinSpaces (y # ys)"

definition priceOrZero :: "(string \<Rightarrow> jsnum) \<Rightarrow> car \<Rightarrow> jsnum" where
  "priceOrZero N c = (case toNumber N (price c) of NaN \<Rightarrow> Fin 0 | p \<Rightarrow> p)"

definition makeHolds :: "filters \<Rightarrow> car \<Rightarrow> bool" where
  "makeHolds f c = (strictEq (makeFilter f) (JStr ''All'') \<or> strictEq (carMake c) (makeFilter f))"

definition bodyHolds :: "filters \<Rightarrow> car \<Rightarrow> bool" where
  "bodyHolds f c = (strictEq (bodyFilter f) (JStr ''All'') \<or> strictEq (body c) (bodyFilter f))"

definition queryHolds :: "(rat \<Rightarrow> string) \<Rightarrow> filters \<Rightarrow> car \<Rightarrow> bool" where
  "queryHolds S f c =
     (defaultText S (query f) = [] \<or>
      sublist (toLowerCase (trim (defaultText S (query f))))
        (toLowerCase
           (joinSpaces (map (defaultText S) [title c, carMake c, model c, body c, year c]))))"

text \<open>The price condition as stated: the sentinel, or the comparison.\<close>

definition priceHoldsAsStated :: "(string \<Rightarrow> jsnum) \<Rightarrow> filters \<Rightarrow> car \<Rightarrow> bool" where
  "priceHoldsAsStated N f c =
     (strictEq (maxPrice f) (JStr ''Any'') \<or> js_le (priceOrZero N c) (toNumber N (maxPrice f)))"

definition includedAsStated ::
  "(string \<Rightarrow> jsnum) \<Rightarrow> (rat \<Rightarrow> string) \<Rightarrow> filters \<Rightarrow> car \<Rightarrow> bool" where
  "includedAsStated N S f c =
     (makeHolds f c \<and> bodyHolds f c \<and> priceHoldsAsStated N f c \<and> queryHolds S f c)"

text \<open>
  The price condition as the code computes it: the sentinel becomes \<open>Infinity\<close>, and
  the comparison is made only against a finite bound. The select that sets the bound
  offers \<open>Any\<close>, \<open>25000\<close>, \<open>30000\<close>, \<open>40000\<close> and \<open>50000\<close>.
\<close>

definition priceHolds :: "(string \<Rightarrow> jsnum) \<Rightarrow> filters \<Rightarrow> car \<Rightarrow> bool" where
  "priceHolds N f c =
     (strictEq (maxPrice f) (JStr ''Any'') \<or> \<not> isFinite (toNumber N (maxPrice f)) \<or>
      js_le (priceOrZero N c) (toNumber N (maxPrice f)))"

definition included ::
  "(string \<Rightarrow> jsnum) \<Rightarrow> (rat \<Rightarrow> string) \<Rightarrow> filters \<Rightarrow> car \<Rightarrow> bool" where
  "included N S f c =
     (makeHolds f c \<and> bodyHolds f c \<and> priceHolds N f c \<and> queryHolds S f c)"

text \<open>Examples: two records of the built-in dataset, and two filter states.\<close>

definition accord :: car where
  "accord = \<lparr>title = JStr ''2022 Honda Accord EX'', carMake = JStr ''Honda'',
     model = JStr ''Accord'', body = JStr ''Sedan'', year = JNum (Fin 2022),
     price = JNum (Fin 26995)\<rparr>"

definition rav4 :: car where
  "rav4 = \<lparr>title = JStr ''2021 Toyota RAV4 XLE'', carMake = JStr ''Toyota'',
     model = JStr ''RAV4'', body = JStr ''SUV'', year = JNum (Fin 2021),
     price = JNum (Fin 28950)\<rparr>"

definition noFilters :: filters where
  "noFilters = \<lparr>query = JStr [], makeFilter = JStr ''All'', bodyFilter = JStr ''All'',
     maxPrice = JStr ''Any''\<rparr>"

definition hondaUnder30000 :: filters where
  "hondaUnder30000 = \<lparr>query = JStr ''  ACCORD '', makeFilter = JStr ''Honda'',
     bodyFilter = JStr ''All'', maxPrice = JStr ''30000''\<rparr>"

section \<open>API client (services/api.js)\<close>

text \<open>
  A response body after \<open>JSON.parse\<close>: the values of JSON. Numbers of JSON are finite.
\<close>

datatype json =
    JsonNull
  | JsonBool bool
  | JsonNum rat
  | JsonStr string
  | JsonArr "json list"
  | JsonObj "(string \<times> json) list"

text \<open>
  The property read \<open>v?.k\<close> for the keys the client reads (\<open>message\<close>, \<open>error\<close>,
  \<open>items\<close>): only an object can hold them; \<open>None\<close> is \<open>undefined\<close>.
\<close>

fun getProp :: "json \<Rightarrow> string \<Rightarrow> json option" where
  "getProp (JsonObj kvs) k = map_of kvs k"
| "getProp _ k = None"

fun truthy_json :: "json option \<Rightarrow> bool" where
  "truthy_json None = False"
| "truthy_json (Some JsonNull) = False"
| "truthy_json (Some (JsonBool b)) = b"
| "truthy_json (Some (JsonNum q)) = (q \<noteq> 0)"
| "truthy_json (Some (JsonStr s)) = (s \<noteq> [])"
| "truthy_json (Some (JsonArr _)) = True"
| "truthy_json (Some (JsonObj _)) = True"

text \<open>
  An error object, by the one property its handlers read. (\<open>requestJson\<close> also sets
  \<open>status\<close> and \<open>body\<close> on it; nothing reads them.)
\<close>

datatype http_error = HttpError (message: string)

text \<open>
  What \<open>fetch\<close> gives: a rejection, or a response. The body text of a response is
  given by what \<open>safeJson\<close> makes of it: reading it fails, it is empty, it is not JSON,
  or it parses.
\<close>

datatype body_text =
    TextFails http_error
  | TextEmpty
  | TextInvalid string
  | TextJson json

record response =
  status :: nat
  statusText :: string
  bodyText :: body_text

datatype fetch_result = Rejects http_error | Responds response

text \<open>\<open>res.ok\<close>: the status is in the range 200 to 299.\<close>

definition ok :: "response \<Rightarrow> bool" where
  "ok res = (200 \<le> status res \<and> status res \<le> 299)"

text \<open>
  A request, by its address, its method and the payload its body serialises. Every
  request carries the header \<open>Content-Type: application/json\<close>.
\<close>

record request =
  url :: string
  httpMethod :: string
  requestBody :: "json option"

text \<open>
  The environment of the client: the configured base address (\<open>API_BASE\<close>, the empty
  string when neither variable is set), the network, and the text the library gives
  the message of an error built from a value that is not a string.
\<close>

record env =
  API_BASE :: string
  fetch :: "request \<Rightarrow> fetch_result"
  errorText :: "json \<Rightarrow> string"

definition hasApiBase :: "env \<Rightarrow> bool" where
  "hasApiBase E = (length (trim (API_BASE E)) > 0)"

text \<open>
  \<open>joinUrl\<close>: trailing slashes of the base and leading slashes of the path are dropped.
\<close>

definition joinUrl :: "string \<Rightarrow> string \<Rightarrow> string" where
  "joinUrl base path =
     (let trimmedBase = rev (dropWhile (\<lambda>c. c = CHR ''/'') (rev base));
          trimmedPath = dropWhile (\<lambda>c. c = CHR ''/'') path
      in if trimmedBase = [] then ''/'' @ trimmedPath
         else trimmedBase @ ''/'' @ trimmedPath)"

definition safeJson :: "response \<Rightarrow> http_error + json" where
  "safeJson res =
     (case bodyText res of
        TextFails e \<Rightarrow> Inl e
      | TextEmpty \<Rightarrow> Inr JsonNull
      | TextInvalid t \<Rightarrow> Inr (JsonObj [(''raw'', JsonStr t)])
      | TextJson j \<Rightarrow> Inr j)"

text \<open>
  The message of the error \<open>requestJson\<close> raises on a status outside 200 to 299:
  \<open>body?.message || body?.error || `Request failed (${res.status} ${res.statusText})`\<close>.
\<close>

definition failureMessage :: "env \<Rightarrow> response \<Rightarrow> json \<Rightarrow> string" where
  "failureMessage E res b =
     (if truthy_json (getProp b ''message'') then
        (case getProp b ''message'' of Some (JsonStr s) \<Rightarrow> s | Some v \<Rightarrow> errorText E v | None \<Rightarrow> [])
      else if truthy_json (getProp b ''error'') then
        (case getProp b ''error'' of Some (JsonStr s) \<Rightarrow> s | Some v \<Rightarrow> errorText E v | None \<Rightarrow> [])
      else ''Request failed ('' @ decimal (status res) @ '' '' @ statusText res @ '')'')"

definition requestFor :: "env \<Rightarrow> string \<Rightarrow> string \<Rightarrow> json option \<Rightarrow> request" where
  "requestFor E path method payload =
     \<lparr>url = (if hasApiBase E then joinUrl (API_BASE E) path else path),
      httpMethod = method, requestBody = payload\<rparr>"

text \<open>
  \<open>requestJson(path, options)\<close>. The list of requests sent so far is threaded through:
  the call appends its one request and answers with the parsed body, or with the error
  it raises.
\<close>

definition requestJson ::
  "env \<Rightarrow> string \<Rightarrow> string \<Rightarrow> json option \<Rightarrow> request list
     \<Rightarrow> request list \<times> (http_error + json)" where
  "requestJson E path method payload sent =
     (let req = requestFor E path method payload in
      (sent @ [req],
       case fetch E req of
         Rejects e \<Rightarrow> Inl e
       | Responds res \<Rightarrow>
           if \<not> ok res then
             (case safeJson res of
                Inl e \<Rightarrow> Inl e
              | Inr b \<Rightarrow> Inl (HttpError (failureMessage E res b)))
           else safeJson res))"

definition mockCar1 :: json where
  "mockCar1 =
     JsonObj [
       (''id'', JsonStr ''car-001''),
       (''title'', JsonStr ''2022 Honda Accord EX''),
       (''price'', JsonNum 26995),
       (''year'', JsonNum 2022),
       (''make'', JsonStr ''Honda''),
       (''model'', JsonStr ''Accord''),
       (''body'', JsonStr ''Sedan''),
       (''mileage'', JsonNum 22110),
       (''fuel'', JsonStr ''Gas''),
       (''transmission'', JsonStr ''Automatic''),
       (''drivetrain'', JsonStr ''FWD''),
       (''color'', JsonStr ''Platinum White''),
       (''imageUrl'', JsonNull),
       (''highlights'', JsonArr
          [JsonStr ''Clean CARFAX'', JsonStr ''Adaptive Cruise'', JsonStr ''Apple CarPlay'']),
       (''description'', JsonStr
          ''A comfortable, efficient midsize sedan with modern safety features and a refined interior.'')]"

definition mockCar2 :: json where
  "mockCar2 =
     JsonObj [
       (''id'', JsonStr ''car-002''),
       (''title'', JsonStr ''2021 Toyota RAV4 XLE''),
       (''price'', JsonNum 28950),
       (''year'', JsonNum 2021),
       (''make'', JsonStr ''Toyota''),
       (''model'', JsonStr ''RAV4''),
       (''body'', JsonStr ''SUV''),
       (''mileage'', JsonNum 28405),
       (''fuel'', JsonStr ''Gas''),
       (''transmission'', JsonStr ''Automatic''),
       (''drivetrain'', JsonStr ''AWD''),
       (''color'', JsonStr ''Magnetic Gray''),
       (''imageUrl'', JsonNull),
       (''highlights'', JsonArr
          [JsonStr ''AWD'', JsonStr ''Heated Seats'', JsonStr ''Lane Assist'']),
       (''description'', JsonStr
          ''Versatile compact SUV with excellent reliability and everyday practicality.'')]"

definition mockCar3 :: json where
  "mockCar3 =
     JsonObj [
       (''id'', JsonStr ''car-003''),
       (''title'', JsonStr ''2020 Tesla Model 3 Standard Range Plus''),
       (''price'', JsonNum 30990),
       (''year'', JsonNum 2020),
       (''make'', JsonStr ''Tesla''),
       (''model'', JsonStr ''Model 3''),
       (''body'', JsonStr ''Sedan''),
       (''mileage'', JsonNum 19820),
       (''fuel'', JsonStr ''Electric''),
       (''transmission'', JsonStr ''Single-speed''),
       (''drivetrain'', JsonStr ''RWD''),
       (''color'', JsonStr ''Red Multi-Coat''),
       (''imageUrl'', JsonNull),
       (''highlights'', JsonArr
          [JsonStr ''Autopilot'', JsonStr ''Fast Charging'', JsonStr ''Premium Audio'']),
       (''description'', JsonStr
          ''All-electric sedan with instant torque, a minimalist cabin, and strong safety ratings.'')]"

definition mockCar4 :: json where
  "mockCar4 =
     JsonObj [
       (''id'', JsonStr ''car-004''),
       (''title'', JsonStr ''2023 Ford F-150 XLT''),
       (''price'', JsonNum 41995),
       (''year'', JsonNum 2023),
       (''make'', JsonStr ''Ford''),
       (''model'', JsonStr ''F-150''),
       (''body'', JsonStr ''Truck''),
       (''mileage'', JsonNum 12050),
       (''fuel'', JsonStr ''Gas''),
       (''transmission'', JsonStr ''Automatic''),
       (''drivetrain'', JsonStr ''4WD''),
       (''color'', JsonStr ''Iconic Silver''),
       (''imageUrl'', JsonNull),
       (''highlights'', JsonArr
          [JsonStr ''4WD'', JsonStr ''Tow Package'', JsonStr ''Remote Start'']),
       (''description'', JsonStr
          (''America'' @ [CHR 0xE2, CHR 0x80, CHR 0x99] @ ''s favorite pickup with power, tech, and comfort for work or weekend adventures.''))]"

definition mockCar5 :: json where
  "mockCar5 =
     JsonObj [
       (''id'', JsonStr ''car-005''),
       (''title'', JsonStr ''2022 BMW X3 xDrive30i''),
       (''price'', JsonNum 39950),
       (''year'', JsonNum 2022),
       (''make'', JsonStr ''BMW''),
       (''model'', JsonStr ''X3''),
       (''body'', JsonStr ''SUV''),
       (''mileage'', JsonNum 16490),
       (''fuel'', JsonStr ''Gas''),
       (''transmission'', JsonStr ''Automatic''),
       (''drivetrain'', JsonStr ''AWD''),
       (''color'', JsonStr ''Alpine White''),
       (''imageUrl'', JsonNull),
       (''highlights'', JsonArr
          [JsonStr ''Luxury Package'', JsonStr ''Panoramic Roof'', JsonStr ''AWD'']),
       (''description'', JsonStr
          ''Premium compact SUV with sporty handling and a high-quality, tech-forward cabin.'')]"

definition mockCar6 :: json where
  "mockCar6 =
     JsonObj [
       (''id'', JsonStr ''car-006''),
       (''title'', JsonStr ''2021 Mazda CX-5 Touring''),
       (''price'', JsonNum 24995),
       (''year'', JsonNum 2021),
       (''make'', JsonStr ''Mazda''),
       (''model'', JsonStr ''CX-5''),
       (''body'', JsonStr ''SUV''),
       (''mileage'', JsonNum 26340),
       (''fuel'', JsonStr ''Gas''),
       (''transmission'', JsonStr ''Automatic''),
       (''drivetrain'', JsonStr ''AWD''),
       (''color'', JsonStr ''Deep Crystal Blue''),
       (''imageUrl'', JsonNull),
       (''highlights'', JsonArr
          [JsonStr ''AWD'', JsonStr ''Blind Spot Monitor'', JsonStr ''Great Condition'']),
       (''description'', JsonStr
          ''A stylish SUV known for agile driving dynamics and an upscale interior feel.'')]"

definition getMockInventory :: "json list" where
  "getMockInventory = [mockCar1, mockCar2, mockCar3, mockCar4, mockCar5, mockCar6]"

datatype source = Mock | Api

record snapshot =
  source :: source
  items :: "json list"
  warning :: "string option"

text \<open>
  The array a response offers: \<open>Array.isArray(data) ? data : data?.items\<close>, when that
  is an array.
\<close>

definition arrayItems :: "json \<Rightarrow> json list option" where
  "arrayItems d =
     (case d of
        JsonArr xs \<Rightarrow> Some xs
      | _ \<Rightarrow> (case getProp d ''items'' of Some (JsonArr xs) \<Rightarrow> Some xs | _ \<Rightarrow> None))"

text \<open>How a loop over candidate paths ends: with a result, or with the last error seen.\<close>

datatype 'a resolution = Resolved 'a | Exhausted "http_error option"

text \<open>The \<open>for\<close> loop of \<open>fetchInventory\<close>, from the candidates still to try.\<close>

fun inventoryLoop ::
  "env \<Rightarrow> string list \<Rightarrow> http_error option \<Rightarrow> request list
     \<Rightarrow> request list \<times> json list resolution" where
  "inventoryLoop E [] lastErr sent = (sent, Exhausted lastErr)"
| "inventoryLoop E (path # paths) lastErr sent =
     (case requestJson E path ''GET'' None sent of
        (sent', Inl e) \<Rightarrow> inventoryLoop E paths (Some e) sent'
      | (sent', Inr d) \<Rightarrow>
          (case arrayItems d of
             Some xs \<Rightarrow> (sent', Resolved xs)
           | None \<Rightarrow> inventoryLoop E paths lastErr sent'))"

definition inventoryCandidates :: "string list" where
  "inventoryCandidates = [''/api/inventory'', ''/inventory'', ''/api/cars'', ''/cars'']"

text \<open>\<open>lastErr?.message || "Backend inventory endpoint unavailable; using mock inventory."\<close>\<close>

definition warningText :: "http_error option \<Rightarrow> string" where
  "warningText lastErr =
     (case lastErr of
        Some e \<Rightarrow>
          if message e \<noteq> [] then message e
          else ''Backend inventory endpoint unavailable; using mock inventory.''
      | None \<Rightarrow> ''Backend inventory endpoint unavailable; using mock inventory.'')"

text \<open>
  \<open>fetchInventory()\<close>: the requests sent, and the snapshot the promise resolves with
  (on the right; a rejection would be on the left).
\<close>

definition fetchInventory ::
  "env \<Rightarrow> request list \<Rightarrow> request list \<times> (http_error + snapshot)" where
  "fetchInventory E sent =
     (if \<not> hasApiBase E
      then (sent, Inr \<lparr>source = Mock, items = getMockInventory, warning = None\<rparr>)
      else
        (case inventoryLoop E inventoryCandidates None sent of
           (sent', Resolved xs) \<Rightarrow> (sent', Inr \<lparr>source = Api, items = xs, warning = None\<rparr>)
         | (sent', Exhausted lastErr) \<Rightarrow>
             (sent', Inr \<lparr>source = Mock, items = getMockInventory,
                           warning = Some (warningText lastErr)\<rparr>)))"

record lead_result =
  leadOk :: bool
  leadSource :: source
  leadData :: "json option"

text \<open>The \<open>for\<close> loop of \<open>submitLead\<close>.\<close>

fun leadLoop ::
  "env \<Rightarrow> json \<Rightarrow> string list \<Rightarrow> http_error option \<Rightarrow> request list
     \<Rightarrow> request list \<times> json resolution" where
  "leadLoop E payload [] lastErr sent = (sent, Exhausted lastErr)"
| "leadLoop E payload (path # paths) lastErr sent =
     (case requestJson E path ''POST'' (Some payload) sent of
        (sent', Inl e) \<Rightarrow> leadLoop E payload paths (Some e) sent'
      | (sent', Inr d) \<Rightarrow> (sent', Resolved d))"

definition leadCandidates :: "string list" where
  "leadCandidates = [''/api/leads'', ''/leads'', ''/api/contact'', ''/contact'']"

text \<open>
  \<open>submitLead(payload)\<close>: without a base address it waits and resolves with a mock
  result; otherwise it resolves with the first answer, or rejects with
  \<open>lastErr || new Error("Lead submission failed.")\<close>.
\<close>

definition submitLead ::
  "env \<Rightarrow> json \<Rightarrow> request list \<Rightarrow> request list \<times> (http_error + lead_result)" where
  "submitLead E payload sent =
     (if \<not> hasApiBase E
      then (sent, Inr \<lparr>leadOk = True, leadSource = Mock, leadData = None\<rparr>)
      else
        (case leadLoop E payload leadCandidates None sent of
           (sent', Resolved d) \<Rightarrow>
             (sent', Inr \<lparr>leadOk = True, leadSource = Api, leadData = Some d\<rparr>)
         | (sent', Exhausted lastErr) \<Rightarrow>
             (sent', Inl (case lastErr of
                            Some e \<Rightarrow> e
                          | None \<Rightarrow> HttpError ''Lead submission failed.''))))"

text \<open>What one candidate does, apart from the request it logs.\<close>

definition attempt :: "env \<Rightarrow> string \<Rightarrow> string \<Rightarrow> json option \<Rightarrow> http_error + json" where
  "attempt E path method payload = snd (requestJson E path method payload [])"

text \<open>
  A read candidate fails, in the specification's words: the request raises, the status
  is outside 200 to 299, or the body is neither an array nor an object with an array
  under \<open>items\<close> (a body that cannot be read raises as well). It succeeds with the
  array otherwise.
\<close>

definition readFails :: "env \<Rightarrow> string \<Rightarrow> bool" where
  "readFails E path =
     (case fetch E (requestFor E path ''GET'' None) of
        Rejects e \<Rightarrow> True
      | Responds res \<Rightarrow>
          \<not> ok res \<or> (case safeJson res of Inl e \<Rightarrow> True | Inr d \<Rightarrow> arrayItems d = None))"

definition readGives :: "env \<Rightarrow> string \<Rightarrow> json list \<Rightarrow> bool" where
  "readGives E path xs =
     (case fetch E (requestFor E path ''GET'' None) of
        Rejects e \<Rightarrow> False
      | Responds res \<Rightarrow>
          ok res \<and> (case safeJson res of Inl e \<Rightarrow> False | Inr d \<Rightarrow> arrayItems d = Some xs))"

text \<open>The last error raised among the read candidates, from a starting value.\<close>

fun lastRaised :: "env \<Rightarrow> string list \<Rightarrow> http_error option \<Rightarrow> http_error option" where
  "lastRaised E [] lastErr = lastErr"
| "lastRaised E (path # paths) lastErr =
     lastRaised E paths
       (case attempt E path ''GET'' None of Inl e \<Rightarrow> Some e | Inr d \<Rightarrow> lastErr)"

text \<open>A write candidate fails when its request raises.\<close>

definition writeFails :: "env \<Rightarrow> json \<Rightarrow> string \<Rightarrow> bool" where
  "writeFails E payload path =
     (case attempt E path ''POST'' (Some payload) of Inl e \<Rightarrow> True | Inr d \<Rightarrow> False)"

text \<open>
  Example environments: a backend that serves the inventory under \<open>/inventory\<close> only,
  and one that answers every request with status 404.
\<close>

definition notFound :: response where
  "notFound = \<lparr>status = 404, statusText = ''Not Found'', bodyText = TextEmpty\<rparr>"

definition partialBackend :: env where
  "partialBackend =
     \<lparr>API_BASE = ''https://dealer.example/'',
      fetch = (\<lambda>req.
        if url req = ''https://dealer.example/inventory''
        then Responds \<lparr>status = 200, statusText = ''OK'',
                        bodyText = TextJson (JsonObj [(''items'', JsonArr [mockCar1, mockCar2])])\<rparr>
        else Responds notFound),
      errorText = (\<lambda>v. ''[object Object]'')\<rparr>"

definition missingBackend :: env where
  "missingBackend =
     \<lparr>API_BASE = ''https://dealer.example/'',
      fetch = (\<lambda>req. Responds notFound),
      errorText = (\<lambda>v. ''[object Object]'')\<rparr>"

section \<open>Lead form (App.js)\<close>

text \<open>
  The state the lead form's submit handler reads and writes: the form values, the
  inline errors, \<open>leadSubmitState\<close> (status and message), the browser storage, and
  the payloads handed to \<open>submitLead\<close> so far. A handler runs on the state of the
  latest render; React renders again between two submit events.
\<close>

datatype submit_status = Idle | Blocked | Submitting | Success | Failed

record lead_form =
  leadName :: string
  leadDealership :: string
  leadTitle :: string
  leadEmail :: string
  leadPhone :: string
  leadMessage :: string
  leadInterest :: string

text \<open>
  The payload \<open>{...leadForm, source: "landing_page", createdAt}\<close>, with the instant
  of \<open>createdAt\<close> in place of its ISO text.
\<close>

record lead_payload =
  payloadForm :: lead_form
  payloadSource :: string
  createdAt :: rat

record lead_ui =
  leadForm :: lead_form
  leadErrors :: "(string \<times> string) list"
  leadStatus :: submit_status
  leadNotice :: string
  localStorage :: storage
  submitted :: "lead_payload list"

text \<open>\<open>validateLeadForm(values)\<close>: the errors by field name, in the order they are set.\<close>

definition validateLeadForm ::
  "(rat \<Rightarrow> string) \<Rightarrow> lead_form \<Rightarrow> js_error + (string \<times> string) list" where
  "validateLeadForm S v =
     (case validateRequired (JStr (leadName v)) of Inl e \<Rightarrow> Inl e | Inr nameErr \<Rightarrow>
      case validateRequired (JStr (leadDealership v)) of Inl e \<Rightarrow> Inl e | Inr dealerErr \<Rightarrow>
      case validateRequired (JStr (leadTitle v)) of Inl e \<Rightarrow> Inl e | Inr titleErr \<Rightarrow>
      case validateEmail (JStr (leadEmail v)) of Inl e \<Rightarrow> Inl e | Inr emailErr \<Rightarrow>
      case validatePhoneOptional (JStr (leadPhone v)) of Inl e \<Rightarrow> Inl e | Inr phoneErr \<Rightarrow>
      let msg = trim (leadMessage v) in
      case (if msg \<noteq> [] then validateMinLen S (JStr msg) (Fin 10) (Some ''Message'')
            else Inr []) of Inl e \<Rightarrow> Inl e | Inr msgErr \<Rightarrow>
        Inr ((if nameErr \<noteq> [] then [(''name'', nameErr)] else []) @
             (if dealerErr \<noteq> [] then [(''dealership'', dealerErr)] else []) @
             (if titleErr \<noteq> [] then [(''title'', titleErr)] else []) @
             (if emailErr \<noteq> [] then [(''email'', emailErr)] else []) @
             (if phoneErr \<noteq> [] then [(''phone'', phoneErr)] else []) @
             (if msgErr \<noteq> [] then [(''message'', msgErr)] else [])))"

definition blockedNotice :: string where
  "blockedNotice =
     ''Thank you '' @ [CHR 0xE2, CHR 0x80, CHR 0x94] @
     '' your request has already been submitted recently. Please check your email, '' @
     ''or contact us directly if you need help sooner.''"

definition successNotice :: string where
  "successNotice =
     ''Thank you '' @ [CHR 0xE2, CHR 0x80, CHR 0x94] @
     '' your request has been submitted. We'' @ [CHR 0xE2, CHR 0x80, CHR 0x99] @
     ''ll reach out within 1 business day.''"

definition failureNotice :: string where
  "failureNotice =
     ''Submission failed. Please try again, or reach out via phone/email below.''"

text \<open>
  \<open>handleLeadSubmit\<close>, up to the call of \<open>submitLead\<close> it awaits: the cooldown check,
  the guard on \<open>submitting\<close>, the validation, and the call, recorded in \<open>submitted\<close>.
\<close>

definition handleLeadSubmit ::
  "(string \<Rightarrow> jsnum) \<Rightarrow> (rat \<Rightarrow> string) \<Rightarrow> rat \<Rightarrow> lead_ui \<Rightarrow> js_error + lead_ui" where
  "handleLeadSubmit N S now ui =
     (case getLeadSubmissionCooldownRemainingMs N (localStorage ui) now None of
        Inl e \<Rightarrow> Inl e
      | Inr remaining \<Rightarrow>
          if js_less (Fin 0) remaining
          then Inr (ui\<lparr>leadStatus := Blocked, leadNotice := blockedNotice\<rparr>)
          else if leadStatus ui = Submitting then Inr ui
          else
            (case validateLeadForm S (leadForm ui) of
               Inl e \<Rightarrow> Inl e
             | Inr errs \<Rightarrow>
                 if length errs > 0 then Inr (ui\<lparr>leadErrors := errs\<rparr>)
                 else Inr (ui\<lparr>leadErrors := errs, leadStatus := Submitting, leadNotice := [],
                             submitted := submitted ui @
                               [\<lparr>payloadForm = leadForm ui, payloadSource = ''landing_page'',
                                 createdAt = now\<rparr>]\<rparr>)))"

text \<open>The rest of \<open>handleLeadSubmit\<close>, once the awaited call has settled.\<close>

definition handleLeadSettled ::
  "(rat \<Rightarrow> string) \<Rightarrow> rat \<Rightarrow> http_error + lead_result \<Rightarrow> lead_ui \<Rightarrow> lead_ui" where
  "handleLeadSettled S now result ui =
     (case result of
        Inr r \<Rightarrow>
          ui\<lparr>localStorage := markLeadSubmitted S (localStorage ui) now,
             leadStatus := Success, leadNotice := successNotice\<rparr>
      | Inl err \<Rightarrow>
          ui\<lparr>leadStatus := Failed,
             leadNotice := (if message err \<noteq> [] then message err else failureNotice)\<rparr>)"

text \<open>Example: a valid form, idle, in a browser that has stored nothing.\<close>

definition adaForm :: lead_form where
  "adaForm =
     \<lparr>leadName = ''Ada Lovelace'', leadDealership = ''Analytical Motors'',
      leadTitle = ''Owner'', leadEmail = ''ada@example.com'', leadPhone = [],
      leadMessage = [], leadInterest = ''Request a Demo''\<rparr>"

definition freshUi :: lead_ui where
  "freshUi =
     \<lparr>leadForm = adaForm, leadErrors = [], leadStatus = Idle, leadNotice = [],
      localStorage = Available Map.empty, submitted = []\<rparr>"

section \<open>Properties of the rounding\<close>

lemma roundEven_of_int [simp]: "roundEven (of_int n) = n"
  by (simp add: roundEven_def)

lemma roundEven_bounds: "of_int (roundEven y) - 1 / 2 \<le> y \<and> y \<le> of_int (roundEven y) + 1 / 2"
  unfolding roundEven_def Let_def by (auto; linarith)

lemma roundEven_mono: "x \<le> y \<Longrightarrow> roundEven x \<le> roundEven y"
proof (rule ccontr)
  assume le: "x \<le> y" and "\<not> roundEven x \<le> roundEven y"
  then have gt: "roundEven y + 1 \<le> roundEven x" by simp
  have bx: "of_int (roundEven x) - 1 / 2 \<le> x" and by': "y \<le> of_int (roundEven y) + 1 / 2"
    using roundEven_bounds by blast+
  from gt have "(of_int (roundEven y) :: rat) + 1 \<le> of_int (roundEven x)"
    by (metis of_int_1 of_int_add of_int_le_iff)
  with bx by' le have eq: "x = y" "x = of_int (roundEven y) + 1 / 2" "of_int (roundEven x) = (of_int (roundEven y) :: rat) + 1"
    by linarith+
  with \<open>\<not> roundEven x \<le> roundEven y\<close> show False by simp
qed

lemma roundEven_minus: "roundEven (- y) = - roundEven y"
proof (cases "y \<in> \<int>")
  case True
  then obtain n where "y = of_int n" by (auto elim: Ints_cases)
  then show ?thesis by (simp flip: of_int_minus)
next
  case False
  then have ne: "y \<noteq> of_int \<lfloor>y\<rfloor>"
    by (metis Ints_of_int)
  then have fl: "\<lfloor>- y\<rfloor> = - \<lfloor>y\<rfloor> - 1"
    by (simp add: floor_minus ceiling_altdef)
  show ?thesis
    unfolding roundEven_def Let_def fl
    by (auto; (linarith | presburger)?)
qed

lemma two_powi_pos [simp]: "0 < (2::rat) powi k"
  by simp

lemma two_powi_mono: "j \<le> k \<Longrightarrow> (2::rat) powi j \<le> 2 powi k"
  by (simp add: power_int_increasing)

lemma two_powi_less_cancel: "(2::rat) powi j < 2 powi k \<Longrightarrow> j < k"
  by (rule ccontr) (use two_powi_mono [of k j] in simp)

lemma two_powi_le_cancel: "(2::rat) powi j \<le> 2 powi k \<Longrightarrow> j \<le> k"
  by (rule ccontr) (use power_int_strict_increasing [of k j "2::rat"] in simp)

lemma two_powi_nat: "0 \<le> k \<Longrightarrow> (2::rat) powi k = of_int (2 ^ nat k)"
  by (simp add: power_int_def)

lemma two_powi_div: "(2::rat) powi a / 2 powi b = 2 powi (a - b)"
  by (simp add: power_int_diff)

lemma binade_bounds:
  assumes "x \<noteq> 0"
  shows "2 powi binade x \<le> \<bar>x\<bar> \<and> \<bar>x\<bar> < 2 powi (binade x + 1)"
proof -
  obtain n d where q: "quotient_of \<bar>x\<bar> = (n, d)" by (cases "quotient_of \<bar>x\<bar>")
  then have d: "0 < d" and x: "\<bar>x\<bar> = of_int n / of_int d"
    by (simp_all add: quotient_of_denom_pos quotient_of_div)
  have "0 < \<bar>x\<bar>" using assms by simp
  then have "(0::rat) < of_int n / of_int d" by (simp add: x)
  with d have n: "0 < n" by (simp add: zero_less_divide_iff)
  let ?a = "bitlen n" and ?b = "bitlen d"
  from bitlen_bounds [OF n] bitlen_bounds [OF d]
  have bn: "2 ^ nat (?a - 1) \<le> n" "n < 2 ^ nat ?a"
    and bd: "2 ^ nat (?b - 1) \<le> d" "d < 2 ^ nat ?b"
    by simp_all
  have a1: "1 \<le> ?a" and b1: "1 \<le> ?b"
    using n d by (simp_all add: bitlen_alt_def)
  have a0: "0 \<le> ?a - 1" "0 \<le> ?a" and b0: "0 \<le> ?b - 1" "0 \<le> ?b"
    using a1 b1 by simp_all
  have pn: "(2::rat) powi (?a - 1) \<le> of_int n" "of_int n < (2::rat) powi ?a"
    unfolding two_powi_nat [OF a0(1)] two_powi_nat [OF a0(2)]
    using bn by (simp_all only: of_int_le_iff of_int_less_iff)
  have pd: "(2::rat) powi (?b - 1) \<le> of_int d" "of_int d < (2::rat) powi ?b"
    unfolding two_powi_nat [OF b0(1)] two_powi_nat [OF b0(2)]
    using bd by (simp_all only: of_int_le_iff of_int_less_iff)
  have dpos: "(0::rat) < of_int d" using d by simp
  have up: "\<bar>x\<bar> < 2 powi (?a - ?b + 1)"
  proof -
    have "of_int n * (2::rat) powi (?b - 1) < 2 powi ?a * of_int d"
      using pn(2) pd(1) n by (intro mult_less_le_imp_less) (simp_all)
    then have "of_int n / of_int d < (2::rat) powi ?a / 2 powi (?b - 1)"
      using dpos by (simp add: field_simps)
    also have "(2::rat) powi ?a / 2 powi (?b - 1) = 2 powi (?a - ?b + 1)"
    proof -
      have e: "?a - ?b + 1 = ?a - (?b - 1)" by simp
      show ?thesis unfolding e by (rule two_powi_div)
    qed
    finally show ?thesis by (simp add: x)
  qed
  have lo: "2 powi (?a - ?b - 1) < \<bar>x\<bar>"
  proof -
    have "(2::rat) powi (?a - 1) * of_int d < of_int n * 2 powi ?b"
      using pn(1) pd(2) dpos by (intro mult_le_less_imp_less) (simp_all)
    then have "(2::rat) powi (?a - 1) / 2 powi ?b < of_int n / of_int d"
      using dpos by (simp add: field_simps)
    moreover have "(2::rat) powi (?a - 1) / 2 powi ?b = 2 powi (?a - ?b - 1)"
    proof -
      have e: "?a - ?b - 1 = ?a - 1 - ?b" by simp
      show ?thesis unfolding e by (rule two_powi_div)
    qed
    ultimately show ?thesis by (simp add: x)
  qed
  show ?thesis
  proof (cases "2 powi (?a - ?b) \<le> \<bar>x\<bar>")
    case True
    then have "binade x = ?a - ?b" by (simp add: binade_def q)
    with True up show ?thesis by simp
  next
    case False
    then have "binade x = ?a - ?b - 1" by (simp add: binade_def q)
    with False lo show ?thesis by simp
  qed
qed

lemma binade_unique:
  assumes "2 powi k \<le> \<bar>x\<bar>" and "\<bar>x\<bar> < 2 powi (k + 1)"
  shows "binade x = k"
proof -
  have "x \<noteq> 0"
  proof
    assume "x = 0"
    with assms(1) have "(2::rat) powi k \<le> 0" by simp
    with two_powi_pos [of k] show False by linarith
  qed
  from binade_bounds [OF this] assms
  have "(2::rat) powi k < 2 powi (binade x + 1)" "(2::rat) powi binade x < 2 powi (k + 1)"
    by linarith+
  then have "k < binade x + 1" "binade x < k + 1"
    by (blast dest: two_powi_less_cancel)+
  then show ?thesis by simp
qed

lemma binade_mono:
  assumes "x \<noteq> 0" and "\<bar>x\<bar> \<le> \<bar>y\<bar>"
  shows "binade x \<le> binade y"
proof -
  from assms have "y \<noteq> 0" by auto
  from binade_bounds [OF assms(1)] binade_bounds [OF this] assms(2)
  have "(2::rat) powi binade x < 2 powi (binade y + 1)" by linarith
  then have "binade x < binade y + 1" by (rule two_powi_less_cancel)
  then show ?thesis by simp
qed

lemma binade_minus [simp]: "binade (- x) = binade x"
  by (simp add: binade_def)

lemma two_powi_mult: "(2::rat) powi a * 2 powi b = 2 powi (a + b)"
  by (simp add: power_int_add)

lemma ulpExponent_minus [simp]: "ulpExponent (- x) = ulpExponent x"
  by (simp add: ulpExponent_def)

lemma nearest_minus: "nearest (- x) = - nearest x"
  by (simp add: nearest_def roundEven_minus)

lemma roundEven_nonneg: "0 \<le> y \<Longrightarrow> 0 \<le> roundEven y"
  using roundEven_mono [of 0 y] roundEven_of_int [of 0] by simp

lemma nearest_nonneg: "0 \<le> x \<Longrightarrow> 0 \<le> nearest x"
  by (simp add: nearest_def roundEven_nonneg)

lemma nearest_on_grid:
  assumes "x / 2 powi ulpExponent x = of_int m"
  shows "nearest x = x"
proof (cases "x = 0")
  case False
  have "nearest x = of_int m * 2 powi ulpExponent x"
    using False assms by (simp add: nearest_def)
  also have "\<dots> = x / 2 powi ulpExponent x * 2 powi ulpExponent x"
    by (simp only: assms)
  also have "\<dots> = x" by simp
  finally show ?thesis .
qed (simp add: nearest_def)

lemma nearest_mono_pos:
  assumes "0 < x" and "x \<le> y"
  shows "nearest x \<le> nearest y"
proof -
  from assms have x0: "x \<noteq> 0" and y0: "y \<noteq> 0" and ax: "\<bar>x\<bar> = x" and ay: "\<bar>y\<bar> = y"
    by simp_all
  let ?ex = "ulpExponent x" and ?ey = "ulpExponent y"
  have bm: "binade x \<le> binade y"
    using binade_mono [OF x0, of y] assms by simp
  then have le: "?ex \<le> ?ey" by (simp add: ulpExponent_def)
  have nx: "nearest x = of_int (roundEven (x / 2 powi ?ex)) * 2 powi ?ex"
    and ny: "nearest y = of_int (roundEven (y / 2 powi ?ey)) * 2 powi ?ey"
    using x0 y0 by (simp_all add: nearest_def)
  show ?thesis
  proof (cases "?ex = ?ey")
    case True
    have "x / 2 powi ?ey \<le> y / 2 powi ?ey"
      using assms(2) by (simp add: divide_right_mono)
    then have "roundEven (x / 2 powi ?ey) \<le> roundEven (y / 2 powi ?ey)"
      by (rule roundEven_mono)
    then have "(of_int (roundEven (x / 2 powi ?ey)) :: rat) * 2 powi ?ey
        \<le> of_int (roundEven (y / 2 powi ?ey)) * 2 powi ?ey"
      by (simp add: mult_right_mono)
    then show ?thesis by (simp add: nx ny True)
  next
    case False
    with le have lt: "?ex < ?ey" by simp
    then have ey: "?ey = binade y - 52" and bl: "binade x < binade y"
      by (simp_all add: ulpExponent_def max_def split: if_splits)
    let ?b = "(2::rat) powi binade y"
    have "x < 2 powi (binade x + 1)"
      using binade_bounds [OF x0] ax by simp
    also have "\<dots> \<le> ?b" using bl by (intro two_powi_mono) simp
    finally have xb: "x \<le> ?b" by simp
    have by': "?b \<le> y" using binade_bounds [OF y0] ay by simp
    have k0: "0 \<le> binade y - ?ex" using lt ey by simp
    have "?b / 2 powi ?ex = of_int (2 ^ nat (binade y - ?ex))"
      by (simp only: two_powi_div two_powi_nat [OF k0])
    moreover have "x / 2 powi ?ex \<le> ?b / 2 powi ?ex"
      using xb by (simp add: divide_right_mono)
    ultimately have "roundEven (x / 2 powi ?ex) \<le> 2 ^ nat (binade y - ?ex)"
      using roundEven_mono [of "x / 2 powi ?ex" "?b / 2 powi ?ex"]
      by (simp only: roundEven_of_int)
    then have "(of_int (roundEven (x / 2 powi ?ex)) :: rat) \<le> of_int (2 ^ nat (binade y - ?ex))"
      by (simp only: of_int_le_iff)
    then have "nearest x \<le> of_int (2 ^ nat (binade y - ?ex)) * 2 powi ?ex"
      unfolding nx by (simp add: mult_right_mono)
    also have "\<dots> = 2 powi (binade y - ?ex) * 2 powi ?ex"
      by (simp only: two_powi_nat [OF k0])
    also have "\<dots> = ?b" by (simp only: two_powi_mult) simp
    finally have left: "nearest x \<le> ?b" .
    have "?b / 2 powi ?ey = of_int (2 ^ nat 52)"
      unfolding ey two_powi_div by (simp add: power_int_def)
    moreover have "?b / 2 powi ?ey \<le> y / 2 powi ?ey"
      using by' by (simp add: divide_right_mono)
    ultimately have "2 ^ nat 52 \<le> roundEven (y / 2 powi ?ey)"
      using roundEven_mono [of "?b / 2 powi ?ey" "y / 2 powi ?ey"]
      by (simp only: roundEven_of_int)
    then have "(of_int (2 ^ nat 52) :: rat) \<le> of_int (roundEven (y / 2 powi ?ey))"
      by (simp only: of_int_le_iff)
    then have "of_int (2 ^ nat 52) * 2 powi ?ey \<le> nearest y"
      unfolding ny by (simp add: mult_right_mono)
    moreover have "(of_int (2 ^ nat 52) :: rat) * 2 powi ?ey = ?b"
    proof -
      have "(of_int (2 ^ nat 52) :: rat) = 2 powi 52" by (simp add: power_int_def)
      then show ?thesis unfolding ey by (simp only: two_powi_mult) simp
    qed
    ultimately have "?b \<le> nearest y" by simp
    with left show ?thesis by simp
  qed
qed

lemma nearest_zero [simp]: "nearest 0 = 0"
  by (simp add: nearest_def)

lemma nearest_mono:
  assumes "x \<le> y"
  shows "nearest x \<le> nearest y"
proof -
  consider "0 < x" | "x \<le> 0" "0 \<le> y" | "y < 0" by linarith
  then show ?thesis
  proof cases
    case 1
    from 1 assms show ?thesis by (rule nearest_mono_pos)
  next
    case 2
    from 2(1) have "0 \<le> nearest (- x)" by (intro nearest_nonneg) simp
    then have "nearest x \<le> 0" by (simp add: nearest_minus)
    also have "0 \<le> nearest y" using 2(2) by (rule nearest_nonneg)
    finally show ?thesis .
  next
    case 3
    with assms have "0 < - y" "- y \<le> - x" by simp_all
    then have "nearest (- y) \<le> nearest (- x)" by (rule nearest_mono_pos)
    then show ?thesis by (simp add: nearest_minus)
  qed
qed

lemma nearest_int:
  assumes "\<bar>n\<bar> \<le> 2 ^ 53"
  shows "nearest (of_int n) = of_int n"
proof (cases "n = 0")
  case True
  then show ?thesis by simp
next
  case False
  let ?x = "of_int n :: rat"
  have x0: "?x \<noteq> 0" using False by simp
  have ge1: "(2::rat) powi 0 \<le> \<bar>?x\<bar>"
  proof -
    have "1 \<le> \<bar>n\<bar>" using False by simp
    then have "(1::rat) \<le> of_int \<bar>n\<bar>" by (simp only: of_int_1_le_iff)
    then show ?thesis by simp
  qed
  have le53: "\<bar>?x\<bar> \<le> 2 powi 53"
  proof -
    have "(of_int \<bar>n\<bar> :: rat) \<le> of_int (2 ^ 53)" using assms by (simp only: of_int_le_iff)
    then show ?thesis by simp
  qed
  from binade_bounds [OF x0] ge1 le53
  have "(2::rat) powi 0 < 2 powi (binade ?x + 1)" "(2::rat) powi binade ?x \<le> 2 powi 53"
    by linarith+
  then have "0 < binade ?x + 1" "binade ?x \<le> 53"
    by (blast dest: two_powi_less_cancel two_powi_le_cancel)+
  then have b0: "0 \<le> binade ?x" and b53: "binade ?x \<le> 53" by simp_all
  show ?thesis
  proof (cases "binade ?x = 53")
    case True
    then have e: "ulpExponent ?x = 1" by (simp add: ulpExponent_def)
    from binade_bounds [OF x0] True le53 have "\<bar>?x\<bar> = 2 powi 53" by simp
    then have "\<bar>n\<bar> = 2 ^ 53"
      by (metis of_int_abs of_int_eq_iff of_int_numeral of_int_power power_int_numeral)
    then have "even \<bar>n\<bar>" by simp
    then have "even n" by simp
    then obtain m where m: "n = 2 * m" by (auto elim: evenE)
    have "?x / 2 powi ulpExponent ?x = ?x / 2" by (simp only: e power_int_1_right)
    also have "\<dots> = of_int m" by (simp add: m)
    finally have "?x / 2 powi ulpExponent ?x = of_int m" .
    then show ?thesis by (rule nearest_on_grid)
  next
    case False
    with b53 b0 have e: "ulpExponent ?x = binade ?x - 52" and k: "0 \<le> 52 - binade ?x"
      by (simp_all add: ulpExponent_def)
    have "?x / 2 powi ulpExponent ?x = ?x * 2 powi (52 - binade ?x)"
      unfolding e by (simp add: power_int_diff field_simps)
    also have "\<dots> = of_int (n * 2 ^ nat (52 - binade ?x))"
      by (simp only: two_powi_nat [OF k]) simp
    finally show ?thesis by (rule nearest_on_grid)
  qed
qed

lemma round64_not_NaN [simp]: "round64 x \<noteq> NaN"
  by (simp add: round64_def)

lemma round64_mono:
  assumes "x \<le> y"
  shows "js_le (round64 x) (round64 y)"
proof -
  have "nearest x \<le> nearest y" using assms by (rule nearest_mono)
  moreover have "- (2 powi 1024) < (2::rat) powi 1024"
    using two_powi_pos [of 1024] by linarith
  ultimately show ?thesis
    unfolding round64_def by (auto; linarith)
qed

lemma round64_int:
  assumes "\<bar>n\<bar> \<le> 2 ^ 53"
  shows "round64 (of_int n) = Fin (of_int n)"
proof -
  have n: "nearest (of_int n) = of_int n" using assms by (rule nearest_int)
  have "(of_int \<bar>n\<bar> :: rat) \<le> of_int (2 ^ 53)" using assms by (simp only: of_int_le_iff)
  then have "\<bar>of_int n :: rat\<bar> \<le> 2 powi 53" by simp
  also have "(2::rat) powi 53 < 2 powi 1024" by (intro power_int_strict_increasing) simp_all
  finally have "\<bar>of_int n :: rat\<bar> < 2 powi 1024" .
  then show ?thesis unfolding round64_def n by (simp add: abs_if split: if_splits)
qed

lemma round64_zero [simp]: "round64 0 = Fin 0"
  using round64_int [of 0] by simp

lemma round64_nonpos: "x \<le> 0 \<Longrightarrow> \<not> js_less (Fin 0) (round64 x)"
  using round64_mono [of x 0] by (cases "round64 x") simp_all

lemma round64_numeral:
  "numeral k \<le> (9007199254740992::int) \<Longrightarrow> round64 (numeral k) = Fin (numeral k)"
  "numeral k \<le> (9007199254740992::int) \<Longrightarrow> round64 (- numeral k) = Fin (- numeral k)"
  "round64 1 = Fin 1" "round64 (- 1) = Fin (- 1)"
  using round64_int [of "numeral k"] round64_int [of "- numeral k"]
    round64_int [of 1] round64_int [of "- 1"]
  by simp_all

text \<open>A tie: \<open>2^53 + 1\<close> lies midway between \<open>2^53\<close> and \<open>2^53 + 2\<close>.\<close>

lemma round64_tie: "round64 9007199254740993 = Fin 9007199254740992"
proof -
  have "binade 9007199254740993 = 53"
    by (rule binade_unique) simp_all
  then have "ulpExponent 9007199254740993 = 1" by (simp add: ulpExponent_def)
  moreover have "\<lfloor>9007199254740993 / 2 :: rat\<rfloor> = 4503599627370496"
    by (rule floor_unique) simp_all
  ultimately have "nearest 9007199254740993 = 9007199254740992"
    by (simp add: nearest_def roundEven_def Let_def)
  then show ?thesis by (simp add: round64_def)
qed

section \<open>Properties of the regular expressions\<close>

declare decimal.simps [simp del]

lemma atLeast_times_numeral:
  "atLeast_times (numeral k) r = Seq r (atLeast_times (pred_numeral k) r)"
  by (simp add: numeral_eq_Suc)

lemma nullable_lang: "nullable r \<longleftrightarrow> [] \<in> lang r"
  by (induction r) (auto simp: conc_def intro: star_empty)

lemma conc_cons:
  "c # w \<in> conc A B \<longleftrightarrow>
     ([] \<in> A \<and> c # w \<in> B) \<or> (\<exists>u v. w = u @ v \<and> c # u \<in> A \<and> v \<in> B)"
proof
  assume "c # w \<in> conc A B"
  then obtain u v where uv: "c # w = u @ v" "u \<in> A" "v \<in> B"
    by (auto simp: conc_def)
  show "([] \<in> A \<and> c # w \<in> B) \<or> (\<exists>u v. w = u @ v \<and> c # u \<in> A \<and> v \<in> B)"
  proof (cases u)
    case Nil
    with uv show ?thesis by simp
  next
    case (Cons d u')
    with uv have "w = u' @ v" "c # u' \<in> A" by auto
    with uv show ?thesis by blast
  qed
next
  assume "([] \<in> A \<and> c # w \<in> B) \<or> (\<exists>u v. w = u @ v \<and> c # u \<in> A \<and> v \<in> B)"
  then show "c # w \<in> conc A B"
  proof
    assume "[] \<in> A \<and> c # w \<in> B"
    then have "[] @ (c # w) \<in> conc A B" unfolding conc_def by blast
    then show ?thesis by simp
  next
    assume "\<exists>u v. w = u @ v \<and> c # u \<in> A \<and> v \<in> B"
    then obtain u v where "w = u @ v" "c # u \<in> A" "v \<in> B" by blast
    then have "(c # u) @ v \<in> conc A B" unfolding conc_def by blast
    with \<open>w = u @ v\<close> show ?thesis by simp
  qed
qed

lemma star_cons_split:
  assumes "w \<in> star A" "w = c # x"
  shows "\<exists>u v. x = u @ v \<and> c # u \<in> A \<and> v \<in> star A"
  using assms
proof (induction arbitrary: x rule: star.induct)
  case star_empty
  then show ?case by simp
next
  case (star_step u v)
  show ?case
  proof (cases u)
    case Nil
    with star_step show ?thesis by simp
  next
    case (Cons d u')
    with star_step.prems have "x = u' @ v" "d = c" by auto
    with Cons star_step.hyps show ?thesis by blast
  qed
qed

lemma star_cons:
  "c # x \<in> star A \<longleftrightarrow> (\<exists>u v. x = u @ v \<and> c # u \<in> A \<and> v \<in> star A)"
proof
  assume "c # x \<in> star A"
  then show "\<exists>u v. x = u @ v \<and> c # u \<in> A \<and> v \<in> star A"
    using star_cons_split by blast
next
  assume "\<exists>u v. x = u @ v \<and> c # u \<in> A \<and> v \<in> star A"
  then obtain u v where "x = u @ v" "c # u \<in> A" "v \<in> star A" by blast
  then have "(c # u) @ v \<in> star A" by (blast intro: star_step)
  with \<open>x = u @ v\<close> show "c # x \<in> star A" by simp
qed

lemma deriv_lang: "w \<in> lang (deriv c r) \<longleftrightarrow> c # w \<in> lang r"
proof (induction r arbitrary: w)
  case (Seq r s)
  then show ?case
    by (auto simp: conc_cons nullable_lang) (auto simp: conc_def)
next
  case (Star r)
  then show ?case
    by (auto simp: star_cons) (auto simp: conc_def)
qed auto

lemma regex_test_lang: "regex_test r w \<longleftrightarrow> w \<in> lang r"
  by (induction w arbitrary: r) (simp_all add: nullable_lang deriv_lang)

lemma star_class: "w \<in> star {[c] | c. P c} \<longleftrightarrow> list_all P w"
proof (induction w)
  case Nil
  show ?case by (simp add: star_empty)
next
  case (Cons a w)
  show ?case by (auto simp: star_cons Cons)
qed

lemma lang_atLeast_class:
  "w \<in> lang (atLeast_times n (Class P)) \<longleftrightarrow> n \<le> length w \<and> list_all P w"
proof (induction n arbitrary: w)
  case 0
  show ?case by (simp add: star_class)
next
  case (Suc n)
  show ?case
  proof (cases w)
    case Nil
    then show ?thesis by (simp add: conc_def)
  next
    case (Cons a x)
    then show ?thesis by (auto simp: conc_cons Suc)
  qed
qed

lemma PHONE_RE_test:
  "regex_test PHONE_RE w \<longleftrightarrow> 7 \<le> length w \<and> list_all phoneChar w"
  by (simp add: PHONE_RE_def regex_test_lang lang_atLeast_class)

section \<open>Properties of the validators\<close>

lemma call_trim_or_cases:
  "call_trim (js_or v (JStr [])) =
     (case v of JStr s \<Rightarrow> Inr (trim s) | _ \<Rightarrow> if truthy v then Inl TypeError else Inr [])"
  by (cases v) (auto simp: js_or_def trim_def)

text \<open>
  Claim C5: every field validator is total on raw values, wrong-typed ones included,
  and returns a string without raising. \<open>validateRequired\<close> and \<open>validateEmail\<close>
  are: they test \<open>typeof value\<close> first. \<open>validatePhoneOptional\<close> and
  \<open>validateMinLen\<close> are not: on every truthy value that is not a string,
  \<open>(value || "").trim()\<close> calls a method that does not exist and raises.
\<close>
theorem C5_validators_totality:
  "(\<exists>msg. validateRequired v = Inr msg) \<and>
   (\<exists>msg. validateEmail v = Inr msg) \<and>
   (truthy w \<and> (\<forall>s. w \<noteq> JStr s) \<longrightarrow>
      validatePhoneOptional w = Inl TypeError \<and> validateMinLen S w minLen fieldName = Inl TypeError)"
proof -
  have req: "\<exists>msg. validateRequired v = Inr msg"
    by (cases v) (simp_all add: validateRequired_def)
  have em: "\<exists>msg. validateEmail v = Inr msg"
    by (cases v) (simp_all add: validateEmail_def validateRequired_def)
  have "validatePhoneOptional w = Inl TypeError \<and> validateMinLen S w minLen fieldName = Inl TypeError"
    if h: "truthy w \<and> (\<forall>s. w \<noteq> JStr s)"
  proof -
    from h have "call_trim (js_or w (JStr [])) = Inl TypeError"
      by (cases w) (simp_all add: js_or_def)
    then show ?thesis
      by (simp add: validatePhoneOptional_def validateMinLen_def)
  qed
  with req em show ?thesis by blast
qed

text \<open>A phone number given as the number 5551234.\<close>
theorem C5_validators_totality_witness:
  "validatePhoneOptional (JNum (Fin 5551234)) = Inl TypeError \<and>
   validateMinLen decimalString (JNum (Fin 5551234)) (Fin 10) None = Inl TypeError \<and>
   validateRequired (JNum (Fin 5551234)) = Inr ''This field is required.''"
  using C5_validators_totality [of "JNum (Fin 5551234)" "JNum (Fin 5551234)" decimalString "Fin 10" None]
  by (simp add: validateRequired_def)

lemma phoneAllowed_eq: "phoneAllowed = phoneChar"
  by (rule ext) (auto simp: phoneAllowed_def phoneChar_def)

lemma PHONE_RE_pattern: "regex_test PHONE_RE s \<longleftrightarrow> phonePattern s"
  by (auto simp: PHONE_RE_test phonePattern_def phoneAllowed_eq)

lemma validatePhoneOptional_falsy: "\<not> truthy v \<Longrightarrow> validatePhoneOptional v = Inr []"
  by (simp add: validatePhoneOptional_def js_or_def trim_def)

lemma validatePhoneOptional_str:
  "validatePhoneOptional (JStr s) =
     Inr (if trim s = [] then []
          else if phonePattern (trim s) then []
          else ''Enter a valid phone number.'')"
  by (simp add: validatePhoneOptional_def call_trim_or_cases PHONE_RE_pattern)

text \<open>
  Claim C9, amended: \<open>validatePhoneOptional\<close> returns the empty string for every
  falsy value (absent ones among them) and for every string that is empty once
  trimmed; for any other string it returns the empty string exactly when the trimmed
  value consists of digits, white space, parentheses, \<open>+\<close>, \<open>-\<close> and \<open>.\<close> only and
  has at least seven characters, and the message \<open>Enter a valid phone number.\<close>
  otherwise.
\<close>
theorem C9_phone_optional_amended:
  "(\<not> truthy v \<longrightarrow> validatePhoneOptional v = Inr []) \<and>
   (trim s = [] \<longrightarrow> validatePhoneOptional (JStr s) = Inr []) \<and>
   (trim s \<noteq> [] \<longrightarrow>
      (validatePhoneOptional (JStr s) = Inr [] \<longleftrightarrow> phonePattern (trim s)) \<and>
      (\<not> phonePattern (trim s) \<longrightarrow>
         validatePhoneOptional (JStr s) = Inr ''Enter a valid phone number.''))"
  by (simp add: validatePhoneOptional_falsy validatePhoneOptional_str)

lemma trim_phone_example: "trim '' (555) 123-4567 '' = ''(555) 123-4567''"
  by (simp add: trim_def isSpace_def)

lemma trim_short_example: "trim ''555-12'' = ''555-12''"
  by (simp add: trim_def isSpace_def)

lemma trim_blank_example: "trim ''   '' = []"
  by (simp add: trim_def isSpace_def)

text \<open>An absent value, a blank string, a well-formed number and a short one.\<close>
theorem C9_phone_optional_amended_witness:
  "validatePhoneOptional JUndefined = Inr [] \<and>
   validatePhoneOptional (JStr ''   '') = Inr [] \<and>
   validatePhoneOptional (JStr '' (555) 123-4567 '') = Inr [] \<and>
   validatePhoneOptional (JStr ''555-12'') = Inr ''Enter a valid phone number.''"
  using C9_phone_optional_amended [of JUndefined "''   ''"]
    C9_phone_optional_amended [of JUndefined "'' (555) 123-4567 ''"]
    C9_phone_optional_amended [of JUndefined "''555-12''"]
  by (simp add: trim_phone_example trim_short_example trim_blank_example phonePattern_def
      phoneAllowed_def isDigit_def isSpace_def)

text \<open>
  Claim C9 as stated fails on a string of three spaces: the value is not empty and its
  trimmed value does not match the pattern, yet the validator accepts it.
\<close>
theorem C9_blank_string_counterexample:
  "''   '' \<noteq> [] \<and> validatePhoneOptional (JStr ''   '') = Inr [] \<and> \<not> phonePattern (trim ''   '')"
  by (simp add: validatePhoneOptional_str trim_blank_example phonePattern_def)

section \<open>Properties of the lead throttle\<close>

lemma cooldown_result:
  "getLeadSubmissionCooldownRemainingMs N st now windowMs =
     Inr (case cooldownRemaining N st now (effectiveWindow windowMs) of Inl e \<Rightarrow> Fin 0 | Inr r \<Rightarrow> r)"
  by (simp add: getLeadSubmissionCooldownRemainingMs_def effectiveWindow_def split: sum.splits option.splits)

lemma js_less_imp_le: "js_less a b \<Longrightarrow> js_le a b"
  by (cases a; cases b) auto

lemma cooldownRemaining_nonneg:
  "cooldownRemaining N st now w = Inr r \<Longrightarrow> js_le (Fin 0) r"
  by (auto simp: cooldownRemaining_def Let_def js_less_imp_le split: sum.splits option.splits if_splits)

lemma cooldown_nonneg:
  "\<exists>r. getLeadSubmissionCooldownRemainingMs N st now windowMs = Inr r \<and> js_le (Fin 0) r"
  by (auto simp: cooldown_result dest: cooldownRemaining_nonneg split: sum.splits)

lemma cooldown_unavailable:
  "getLeadSubmissionCooldownRemainingMs N Unavailable now windowMs = Inr (Fin 0)"
  by (simp add: cooldown_result cooldownRemaining_def getItem_def)

lemma cooldown_absent:
  "m STORAGE_KEY = None \<Longrightarrow>
   getLeadSubmissionCooldownRemainingMs N (Available m) now windowMs = Inr (Fin 0)"
  by (simp add: cooldown_result cooldownRemaining_def getItem_def)

lemma cooldown_empty:
  "m STORAGE_KEY = Some [] \<Longrightarrow>
   getLeadSubmissionCooldownRemainingMs N (Available m) now windowMs = Inr (Fin 0)"
  by (simp add: cooldown_result cooldownRemaining_def getItem_def)

lemma cooldown_corrupt:
  "m STORAGE_KEY = Some raw \<Longrightarrow> \<not> isFinite (N raw) \<Longrightarrow>
   getLeadSubmissionCooldownRemainingMs N (Available m) now windowMs = Inr (Fin 0)"
  by (simp add: cooldown_result cooldownRemaining_def getItem_def)

lemma elapsed_clamp:
  "js_le w e \<Longrightarrow> \<not> js_less (Fin 0) (js_minus w e)"
  by (cases w; cases e) (simp_all add: round64_nonpos)

lemma cooldown_elapsed:
  "m STORAGE_KEY = Some raw \<Longrightarrow> N raw = Fin t \<Longrightarrow>
   js_le (effectiveWindow windowMs) (js_minus (Fin now) (Fin t)) \<Longrightarrow>
   getLeadSubmissionCooldownRemainingMs N (Available m) now windowMs = Inr (Fin 0)"
  by (simp add: cooldown_result cooldownRemaining_def getItem_def Let_def elapsed_clamp
      del: js_minus.simps)

lemma exact_elapsed_rounds:
  assumes "js_le w (Fin d)" and "isDouble w"
  shows "js_le w (round64 d)"
proof (cases w)
  case (Fin q)
  with assms have "q \<le> d" "round64 q = Fin q" by simp_all
  with round64_mono [of q d] Fin show ?thesis by simp
next
  case NegInf
  then show ?thesis by (cases "round64 d") simp_all
qed (use assms in simp_all)

lemma cooldown_elapsed_exact:
  "m STORAGE_KEY = Some raw \<Longrightarrow> N raw = Fin t \<Longrightarrow>
   js_le (effectiveWindow windowMs) (Fin (now - t)) \<Longrightarrow> isDouble (effectiveWindow windowMs) \<Longrightarrow>
   getLeadSubmissionCooldownRemainingMs N (Available m) now windowMs = Inr (Fin 0)"
  using cooldown_elapsed [of m raw N t windowMs now] exact_elapsed_rounds [of "effectiveWindow windowMs" "now - t"]
  by simp

text \<open>
  Claim C6: for every window, \<open>getLeadSubmissionCooldownRemainingMs\<close> returns (it
  never raises) and its value is not negative; the value is \<open>0\<close> when the storage
  read raises, when nothing (or the empty string) is stored, when the stored text does
  not convert to a finite number, and when the window has elapsed
  (\<open>now - timestamp >= windowMs\<close>): both for the difference as the program computes
  it, and for the exact difference against a window that is a binary64 value.
\<close>
theorem C6_cooldown_total_nonnegative:
  "(\<exists>r. getLeadSubmissionCooldownRemainingMs N st now windowMs = Inr r \<and> js_le (Fin 0) r) \<and>
   getLeadSubmissionCooldownRemainingMs N Unavailable now windowMs = Inr (Fin 0) \<and>
   (m1 STORAGE_KEY = None \<or> m1 STORAGE_KEY = Some [] \<longrightarrow>
      getLeadSubmissionCooldownRemainingMs N (Available m1) now windowMs = Inr (Fin 0)) \<and>
   (m2 STORAGE_KEY = Some raw2 \<and> \<not> isFinite (N raw2) \<longrightarrow>
      getLeadSubmissionCooldownRemainingMs N (Available m2) now windowMs = Inr (Fin 0)) \<and>
   (m3 STORAGE_KEY = Some raw3 \<and> N raw3 = Fin t \<and>
    js_le (effectiveWindow windowMs) (js_minus (Fin now) (Fin t)) \<longrightarrow>
      getLeadSubmissionCooldownRemainingMs N (Available m3) now windowMs = Inr (Fin 0)) \<and>
   (m4 STORAGE_KEY = Some raw4 \<and> N raw4 = Fin t4 \<and>
    js_le (effectiveWindow windowMs) (Fin (now - t4)) \<and> isDouble (effectiveWindow windowMs) \<longrightarrow>
      getLeadSubmissionCooldownRemainingMs N (Available m4) now windowMs = Inr (Fin 0))"
proof (intro conjI impI)
  show "\<exists>r. getLeadSubmissionCooldownRemainingMs N st now windowMs = Inr r \<and> js_le (Fin 0) r"
    by (rule cooldown_nonneg)
  show "getLeadSubmissionCooldownRemainingMs N Unavailable now windowMs = Inr (Fin 0)"
    by (rule cooldown_unavailable)
  show "getLeadSubmissionCooldownRemainingMs N (Available m1) now windowMs = Inr (Fin 0)"
    if "m1 STORAGE_KEY = None \<or> m1 STORAGE_KEY = Some []"
    using that cooldown_absent cooldown_empty by blast
  show "getLeadSubmissionCooldownRemainingMs N (Available m2) now windowMs = Inr (Fin 0)"
    if "m2 STORAGE_KEY = Some raw2 \<and> \<not> isFinite (N raw2)"
    using that by (simp add: cooldown_corrupt)
  show "getLeadSubmissionCooldownRemainingMs N (Available m3) now windowMs = Inr (Fin 0)"
    if "m3 STORAGE_KEY = Some raw3 \<and> N raw3 = Fin t \<and>
        js_le (effectiveWindow windowMs) (js_minus (Fin now) (Fin t))"
    using that cooldown_elapsed [of m3 raw3 N t windowMs now] by blast
  show "getLeadSubmissionCooldownRemainingMs N (Available m4) now windowMs = Inr (Fin 0)"
    if "m4 STORAGE_KEY = Some raw4 \<and> N raw4 = Fin t4 \<and>
        js_le (effectiveWindow windowMs) (Fin (now - t4)) \<and> isDouble (effectiveWindow windowMs)"
    using that cooldown_elapsed_exact [of m4 raw4 N t4 windowMs now] by blast
qed

lemma decimalNumber_1000: "decimalNumber ''1000'' = Fin 1000"
  by (simp add: decimalNumber_def trim_def isSpace_def isDigit_def digitValue_def)

lemma decimalNumber_1001: "decimalNumber ''1001'' = Fin 1001"
  by (simp add: decimalNumber_def trim_def isSpace_def isDigit_def digitValue_def)

lemma decimalNumber_oops: "decimalNumber ''oops'' = NaN"
  by (simp add: decimalNumber_def trim_def isSpace_def isDigit_def digitValue_def)

text \<open>
  An empty store, a corrupt entry, and a timestamp 4000 ms old under a window of
  3000 ms.
\<close>
theorem C6_cooldown_total_nonnegative_witness:
  "getLeadSubmissionCooldownRemainingMs decimalNumber (Available (Map.empty)) 5000 (Some (Fin 3000)) = Inr (Fin 0) \<and>
   getLeadSubmissionCooldownRemainingMs decimalNumber (Available [STORAGE_KEY \<mapsto> ''oops'']) 5000 (Some (Fin 3000)) = Inr (Fin 0) \<and>
   getLeadSubmissionCooldownRemainingMs decimalNumber (Available [STORAGE_KEY \<mapsto> ''1000'']) 5000 (Some (Fin 3000)) = Inr (Fin 0) \<and>
   getLeadSubmissionCooldownRemainingMs decimalNumber Unavailable 5000 (Some (Fin 3000)) = Inr (Fin 0)"
  using C6_cooldown_total_nonnegative [of decimalNumber Unavailable 5000 "Some (Fin 3000)"
      Map.empty "[STORAGE_KEY \<mapsto> ''oops'']" "''oops''"
      "[STORAGE_KEY \<mapsto> ''1000'']" "''1000''" 1000
      "[STORAGE_KEY \<mapsto> ''1000'']" "''1000''" 1000]
  by (simp add: decimalNumber_1000 decimalNumber_oops effectiveWindow_def round64_numeral)

lemma cooldown_future_exact:
  assumes "m STORAGE_KEY = Some raw" and "raw \<noteq> []" and "N raw = Fin t"
    and "effectiveWindow windowMs = Fin w" and "now < t" and "0 \<le> w"
    and "round64 (now - t) = Fin (now - t)"
    and "round64 (w - (now - t)) = Fin (w - (now - t))"
  shows "getLeadSubmissionCooldownRemainingMs N (Available m) now windowMs =
           Inr (Fin (w + (t - now)))"
proof -
  have "0 < w - (now - t)" using assms(5,6) by simp
  moreover have "w - (now - t) = w + (t - now)" by simp
  ultimately show ?thesis
    using assms(1-4,7,8)
    by (simp add: cooldown_result cooldownRemaining_def getItem_def Let_def)
qed

lemma cooldown_future:
  fixes t now w :: int
  assumes "m STORAGE_KEY = Some raw" and "raw \<noteq> []" and "N raw = Fin (of_int t)"
    and "effectiveWindow windowMs = Fin (of_int w)"
    and "0 \<le> now" and "now < t" and "t \<le> 2 ^ 52" and "0 \<le> w" and "w \<le> 2 ^ 52"
  shows "getLeadSubmissionCooldownRemainingMs N (Available m) (of_int now) windowMs =
           Inr (Fin (of_int (w + (t - now))))"
proof -
  have "\<bar>now - t\<bar> \<le> 2 ^ 53" using assms by simp
  then have e: "round64 (of_int now - of_int t) = Fin (of_int now - of_int t)"
    using round64_int [of "now - t"] by simp
  have "\<bar>w - (now - t)\<bar> \<le> 2 ^ 53" using assms by simp
  then have r: "round64 (of_int w - (of_int now - of_int t)) =
      Fin (of_int w - (of_int now - of_int t))"
    using round64_int [of "w - (now - t)"] by simp
  have "(of_int now :: rat) < of_int t" "(0::rat) \<le> of_int w" using assms by simp_all
  with assms(1-4) e r
  have "getLeadSubmissionCooldownRemainingMs N (Available m) (of_int now) windowMs =
      Inr (Fin (of_int w + (of_int t - of_int now)))"
    by (intro cooldown_future_exact)
  then show ?thesis by simp
qed

text \<open>
  Claim C10, amended: when the stored text is not empty and converts to a finite
  instant \<open>t\<close> later than \<open>now\<close>, the window (given, or the default of 24 hours) is
  finite and not negative, and neither of the two subtractions rounds, the remaining
  cooldown is \<open>windowMs + (t - now)\<close>, more than the window itself: nothing clamps it
  to the window. No subtraction rounds when the three values are whole milliseconds
  with \<open>0 \<le> now < t \<le> 2^52\<close> and \<open>0 \<le> windowMs \<le> 2^52\<close>.
\<close>
theorem C10_future_timestamp_not_clamped:
  "(m STORAGE_KEY = Some raw \<and> raw \<noteq> [] \<and> N raw = Fin t \<and> now < t \<and>
    effectiveWindow windowMs = Fin w \<and> 0 \<le> w \<and>
    round64 (now - t) = Fin (now - t) \<and> round64 (w - (now - t)) = Fin (w - (now - t)) \<longrightarrow>
      getLeadSubmissionCooldownRemainingMs N (Available m) now windowMs =
        Inr (Fin (w + (t - now))) \<and>
      w < w + (t - now)) \<and>
   (mi STORAGE_KEY = Some rawi \<and> rawi \<noteq> [] \<and> N rawi = Fin (of_int ti) \<and>
    effectiveWindow windowMsi = Fin (of_int wi) \<and>
    0 \<le> nowi \<and> nowi < ti \<and> ti \<le> 2 ^ 52 \<and> 0 \<le> wi \<and> wi \<le> 2 ^ 52 \<longrightarrow>
      getLeadSubmissionCooldownRemainingMs N (Available mi) (of_int nowi) windowMsi =
        Inr (Fin (of_int (wi + (ti - nowi)))) \<and>
      wi < wi + (ti - nowi))"
proof (intro conjI impI)
  assume h: "m STORAGE_KEY = Some raw \<and> raw \<noteq> [] \<and> N raw = Fin t \<and> now < t \<and>
    effectiveWindow windowMs = Fin w \<and> 0 \<le> w \<and>
    round64 (now - t) = Fin (now - t) \<and> round64 (w - (now - t)) = Fin (w - (now - t))"
  then show "getLeadSubmissionCooldownRemainingMs N (Available m) now windowMs =
      Inr (Fin (w + (t - now)))"
    using cooldown_future_exact [of m raw N t windowMs w now] by blast
  from h show "w < w + (t - now)" by simp
next
  assume h: "mi STORAGE_KEY = Some rawi \<and> rawi \<noteq> [] \<and> N rawi = Fin (of_int ti) \<and>
    effectiveWindow windowMsi = Fin (of_int wi) \<and>
    0 \<le> nowi \<and> nowi < ti \<and> ti \<le> 2 ^ 52 \<and> 0 \<le> wi \<and> wi \<le> 2 ^ 52"
  then show "getLeadSubmissionCooldownRemainingMs N (Available mi) (of_int nowi) windowMsi =
      Inr (Fin (of_int (wi + (ti - nowi))))"
    using cooldown_future [of mi rawi N ti windowMsi wi nowi] by blast
  from h show "wi < wi + (ti - nowi)" by simp
qed

text \<open>A timestamp 600 ms ahead, under a window of 500 ms and under the default.\<close>
theorem C10_future_timestamp_not_clamped_witness:
  "getLeadSubmissionCooldownRemainingMs decimalNumber (Available [STORAGE_KEY \<mapsto> ''1000''])
     400 (Some (Fin 500)) = Inr (Fin 1100) \<and>
   getLeadSubmissionCooldownRemainingMs decimalNumber (Available [STORAGE_KEY \<mapsto> ''1000''])
     400 None = Inr (Fin 86400600)"
  using C10_future_timestamp_not_clamped
      [of "[STORAGE_KEY \<mapsto> ''1000'']" "''1000''" decimalNumber 1000 400 "Some (Fin 500)" 500
          "[STORAGE_KEY \<mapsto> ''1000'']" "''1000''" 1000 None 86400000 400]
  by (simp add: decimalNumber_1000 effectiveWindow_def DEFAULT_WINDOW_MS_def round64_numeral)

text \<open>
  Claim C10 as stated fails on two windows, with \<open>now = 1000\<close> and the stored instant
  \<open>1001\<close>. Under the window \<open>2^53\<close> the sum \<open>2^53 + 1\<close> is no binary64 value and
  rounds to \<open>2^53\<close>: the result is the window itself, not more. Under the window
  \<open>-1000\<close> the sum is negative and the result is \<open>0\<close>.
\<close>
theorem C10_window_counterexample:
  "decimalNumber ''1001'' = Fin 1001 \<and> (1000::rat) < 1001 \<and>
   getLeadSubmissionCooldownRemainingMs decimalNumber (Available [STORAGE_KEY \<mapsto> ''1001''])
     1000 (Some (Fin 9007199254740992)) = Inr (Fin 9007199254740992) \<and>
   getLeadSubmissionCooldownRemainingMs decimalNumber (Available [STORAGE_KEY \<mapsto> ''1001''])
     1000 (Some (Fin (- 1000))) = Inr (Fin 0)"
  by (simp add: decimalNumber_1001 cooldown_result effectiveWindow_def cooldownRemaining_def
      getItem_def round64_numeral round64_tie)

section \<open>Properties of the inventory filter\<close>

lemma dropWhile_keeps_infix:
  "q \<noteq> [] \<Longrightarrow> \<not> P (hd q) \<Longrightarrow> dropWhile P (ps @ q @ ss) = dropWhile P ps @ q @ ss"
  by (induction ps) (auto simp: neq_Nil_conv)

lemma trim_keeps_infix:
  assumes "q \<noteq> []" "\<not> isSpace (hd q)" "\<not> isSpace (last q)"
  shows "trim (ps @ q @ ss) = dropWhile isSpace ps @ q @ rev (dropWhile isSpace (rev ss))"
proof -
  have "dropWhile isSpace (ps @ q @ ss) = dropWhile isSpace ps @ q @ ss"
    using assms by (simp add: dropWhile_keeps_infix)
  moreover have "dropWhile isSpace (rev ss @ rev q @ rev (dropWhile isSpace ps))
      = dropWhile isSpace (rev ss) @ rev q @ rev (dropWhile isSpace ps)"
    using assms by (intro dropWhile_keeps_infix) (simp_all add: hd_rev)
  ultimately show ?thesis by (simp add: trim_def)
qed

lemma trim_infix: "sublist (trim s) s"
proof -
  have "s = takeWhile isSpace s @ dropWhile isSpace s" by simp
  moreover have "rev (dropWhile isSpace s)
      = takeWhile isSpace (rev (dropWhile isSpace s)) @ dropWhile isSpace (rev (dropWhile isSpace s))"
    by simp
  then have "dropWhile isSpace s
      = trim s @ rev (takeWhile isSpace (rev (dropWhile isSpace s)))"
    unfolding trim_def by (metis rev_append rev_rev_ident)
  ultimately have "s = takeWhile isSpace s @ trim s @ rev (takeWhile isSpace (rev (dropWhile isSpace s)))"
    by metis
  then show ?thesis unfolding sublist_def by blast
qed

lemma sublist_trim_iff:
  assumes "q \<noteq> []" "\<not> isSpace (hd q)" "\<not> isSpace (last q)"
  shows "sublist q (trim h) \<longleftrightarrow> sublist q h"
proof
  assume "sublist q (trim h)"
  then show "sublist q h" using trim_infix sublist_order.order_trans by blast
next
  assume "sublist q h"
  then obtain ps ss where "h = ps @ q @ ss" unfolding sublist_def by blast
  then show "sublist q (trim h)" using assms by (simp add: trim_keeps_infix)
qed

lemma trim_ends:
  assumes "trim s \<noteq> []"
  shows "\<not> isSpace (hd (trim s))" "\<not> isSpace (last (trim s))"
proof -
  let ?a = "dropWhile isSpace s"
  let ?b = "dropWhile isSpace (rev ?a)"
  from assms have b: "?b \<noteq> []" by (simp add: trim_def)
  have a: "?a \<noteq> []"
  proof
    assume h: "?a = []"
    have "?b = []" unfolding h by simp
    with b show False by simp
  qed
  have "last (trim s) = hd ?b" by (simp add: trim_def last_rev)
  with b show "\<not> isSpace (last (trim s))" by (simp add: hd_dropWhile)
  have "rev ?a = takeWhile isSpace (rev ?a) @ ?b" by simp
  with b have "last (rev ?a) = last ?b" by (metis last_appendR)
  then have "hd (trim s) = hd ?a" using a by (simp add: trim_def hd_rev last_rev)
  with a show "\<not> isSpace (hd (trim s))" by (simp add: hd_dropWhile)
qed

lemma lowerChar_space: "isSpace (lowerChar c) = isSpace c"
  by (simp add: lowerChar_def isSpace_def)

lemma toLowerCase_trim: "toLowerCase (trim s) = trim (toLowerCase s)"
proof -
  have "isSpace \<circ> lowerChar = isSpace" by (rule ext) (simp add: lowerChar_space)
  then show ?thesis by (simp add: toLowerCase_def trim_def dropWhile_map rev_map)
qed

lemma normalized_ends:
  assumes "toLowerCase (trim s) \<noteq> []"
  shows "\<not> isSpace (hd (toLowerCase (trim s)))" "\<not> isSpace (last (toLowerCase (trim s)))"
  using assms trim_ends [of s]
  by (simp_all add: toLowerCase_def hd_map last_map lowerChar_space)

lemma includes_normalized:
  "toLowerCase (trim x) \<noteq> [] \<Longrightarrow>
   sublist (toLowerCase (trim x)) (toLowerCase (trim h)) \<longleftrightarrow>
   sublist (toLowerCase (trim x)) (toLowerCase h)"
  by (simp add: toLowerCase_trim [of h] sublist_trim_iff normalized_ends)

lemma toString_or_empty: "toString S (js_or v (JStr [])) = defaultText S v"
  by (simp add: js_or_def defaultText_def)

lemma defaultText_str: "defaultText S (JStr h) = h"
  by (simp add: defaultText_def)

lemma normalizeStr_eq: "normalizeStr S v = toLowerCase (trim (defaultText S v))"
  by (simp add: normalizeStr_def toString_or_empty)

lemma haystackText_joined:
  "haystackText S c = joinSpaces (map (defaultText S) [title c, carMake c, model c, body c, year c])"
  by (simp add: haystackText_def toString_or_empty)

lemma num_or_zero_price: "num_or_zero (toNumber N (price c)) = priceOrZero N c"
  by (cases "toNumber N (price c)") (simp_all add: num_or_zero_def priceOrZero_def)

lemma queryHolds_code:
  "(normalizeStr S (query f) = [] \<or>
      sublist (normalizeStr S (query f)) (normalizeStr S (JStr (haystackText S c))))
   \<longleftrightarrow> queryHolds S f c"
proof (cases "normalizeStr S (query f) = []")
  case True
  then show ?thesis
    by (simp add: queryHolds_def normalizeStr_eq)
next
  case False
  then have ne: "toLowerCase (trim (defaultText S (query f))) \<noteq> []"
    by (simp add: normalizeStr_eq)
  then have "defaultText S (query f) \<noteq> []"
    by (auto simp: toLowerCase_def trim_def)
  with ne show ?thesis
    by (simp add: queryHolds_def normalizeStr_eq defaultText_str
        includes_normalized haystackText_joined)
qed

lemma priceHolds_code:
  "(let max = (if strictEq (maxPrice f) (JStr ''Any'') then PosInf else toNumber N (maxPrice f))
    in if \<not> isFinite max then True else js_le (num_or_zero (toNumber N (price c))) max)
   \<longleftrightarrow> priceHolds N f c"
  by (simp add: priceHolds_def num_or_zero_price Let_def)

lemma included_code:
  "filteredInventory N S f cars = filter (included N S f) cars"
proof -
  have "(\<lambda>c. included N S f c) = (\<lambda>c.
      (strictEq (makeFilter f) (JStr ''All'') \<or> strictEq (carMake c) (makeFilter f)) \<and>
      (strictEq (bodyFilter f) (JStr ''All'') \<or> strictEq (body c) (bodyFilter f)) \<and>
      (let max = (if strictEq (maxPrice f) (JStr ''Any'') then PosInf else toNumber N (maxPrice f))
       in if \<not> isFinite max then True else js_le (num_or_zero (toNumber N (price c))) max) \<and>
      (normalizeStr S (query f) = [] \<or>
        sublist (normalizeStr S (query f)) (normalizeStr S (JStr (haystackText S c)))))"
    unfolding queryHolds_code priceHolds_code
    by (simp add: included_def makeHolds_def bodyHolds_def)
  then show ?thesis
    by (simp add: filteredInventory_def Let_def)
qed


lemma priceHolds_as_stated:
  "strictEq (maxPrice f) (JStr ''Any'') \<or> isFinite (toNumber N (maxPrice f)) \<Longrightarrow>
   priceHolds N f c = priceHoldsAsStated N f c"
  by (auto simp: priceHolds_def priceHoldsAsStated_def)

text \<open>
  Claim C1: for every list of vehicle records and every filter state whose price bound
  is \<open>Any\<close> or a finite number (every bound the select offers is), the filter returns
  exactly the records, in their order, for which all four conditions hold: the make
  filter is \<open>All\<close> or strictly equals the record's make; the body filter likewise; the
  price bound is \<open>Any\<close> or the record's price (\<open>0\<close> when it converts to \<open>NaN\<close>) is at
  most the bound; and the query is empty or, trimmed and lower-cased, a substring of
  the lower-cased space-joined text of title, make, model, body and year, each empty
  when falsy.
\<close>
theorem C1_filter_subsequence:
  assumes "strictEq (maxPrice f) (JStr ''Any'') \<or> isFinite (toNumber N (maxPrice f))"
  shows "filteredInventory N S f cars = filter (includedAsStated N S f) cars"
proof -
  have "included N S f = includedAsStated N S f"
    using assms by (intro ext) (simp add: included_def includedAsStated_def priceHolds_as_stated)
  then show ?thesis by (simp add: included_code)
qed

lemma decimalNumber_30000: "decimalNumber ''30000'' = Fin 30000"
  by (simp add: decimalNumber_def trim_def isSpace_def isDigit_def digitValue_def)

lemma decimalString_2022: "decimalString 2022 = ''2022''"
  by (simp add: decimalString_def decimal.simps)

lemma includedAsStated_accord:
  "includedAsStated decimalNumber decimalString hondaUnder30000 accord"
  by (simp add: includedAsStated_def makeHolds_def bodyHolds_def priceHoldsAsStated_def
      queryHolds_def hondaUnder30000_def accord_def decimalNumber_30000 priceOrZero_def
      defaultText_def decimalString_2022 trim_def isSpace_def toLowerCase_def lowerChar_def
      sublist_code prefix_code)

lemma not_includedAsStated_rav4:
  "\<not> includedAsStated decimalNumber decimalString hondaUnder30000 rav4"
  by (simp add: includedAsStated_def makeHolds_def hondaUnder30000_def rav4_def)

text \<open>
  The Accord passes a filter on make \<open>Honda\<close>, bound \<open>30000\<close> and query
  \<open>"  ACCORD "\<close>; the RAV4 does not.
\<close>
theorem C1_filter_subsequence_witness:
  "filteredInventory decimalNumber decimalString hondaUnder30000 [rav4, accord, rav4] = [accord]"
  using C1_filter_subsequence [of hondaUnder30000 decimalNumber decimalString "[rav4, accord, rav4]"]
  by (simp add: includedAsStated_accord not_includedAsStated_rav4)
     (simp add: hondaUnder30000_def decimalNumber_30000)

text \<open>
  Claim C8: with all four criteria at their sentinels (empty query, make \<open>All\<close>,
  body \<open>All\<close>, price bound \<open>Any\<close>) the filter returns its input unchanged.
\<close>
theorem C8_sentinel_filter_identity:
  "filteredInventory N S
     \<lparr>query = JStr [], makeFilter = JStr ''All'', bodyFilter = JStr ''All'', maxPrice = JStr ''Any''\<rparr>
     cars = cars"
  by (simp add: filteredInventory_def normalizeStr_def js_or_def trim_def toLowerCase_def)

text \<open>Two records of the built-in dataset under the cleared filters.\<close>
theorem C8_sentinel_filter_identity_witness:
  "filteredInventory decimalNumber decimalString noFilters [accord, rav4] = [accord, rav4]"
  using C8_sentinel_filter_identity [of decimalNumber decimalString "[accord, rav4]"]
  by (simp add: noFilters_def)

section \<open>Properties of the API client\<close>

lemma requestJson_sent:
  "requestJson E path method payload sent =
     (sent @ [requestFor E path method payload], attempt E path method payload)"
  by (simp add: requestJson_def attempt_def Let_def)

lemma attempt_fetch:
  "attempt E path method payload =
     (case fetch E (requestFor E path method payload) of
        Rejects e \<Rightarrow> Inl e
      | Responds res \<Rightarrow>
          if \<not> ok res then
            (case safeJson res of
               Inl e \<Rightarrow> Inl e
             | Inr b \<Rightarrow> Inl (HttpError (failureMessage E res b)))
          else safeJson res)"
  by (simp add: requestJson_def attempt_def Let_def)

lemma readFails_attempt:
  "readFails E path \<longleftrightarrow>
     (case attempt E path ''GET'' None of Inl e \<Rightarrow> True | Inr d \<Rightarrow> arrayItems d = None)"
  by (simp add: readFails_def attempt_fetch split: fetch_result.splits sum.splits)

lemma readGives_attempt:
  "readGives E path xs \<longleftrightarrow>
     (case attempt E path ''GET'' None of Inl e \<Rightarrow> False | Inr d \<Rightarrow> arrayItems d = Some xs)"
  by (simp add: readGives_def attempt_fetch split: fetch_result.splits sum.splits)

lemma inventoryLoop_fail_step:
  "readFails E path \<Longrightarrow>
   inventoryLoop E (path # paths) lastErr sent =
     inventoryLoop E paths
       (case attempt E path ''GET'' None of Inl e \<Rightarrow> Some e | Inr d \<Rightarrow> lastErr)
       (sent @ [requestFor E path ''GET'' None])"
  by (auto simp: requestJson_sent readFails_attempt split: sum.splits)

lemma inventoryLoop_success_step:
  "readGives E path xs \<Longrightarrow>
   inventoryLoop E (path # paths) lastErr sent =
     (sent @ [requestFor E path ''GET'' None], Resolved xs)"
  by (auto simp: requestJson_sent readGives_attempt split: sum.splits)

declare inventoryLoop.simps(2) [simp del]

lemma inventoryLoop_exhausted:
  "\<forall>p \<in> set paths. readFails E p \<Longrightarrow>
   inventoryLoop E paths lastErr sent =
     (sent @ map (\<lambda>p. requestFor E p ''GET'' None) paths, Exhausted (lastRaised E paths lastErr))"
proof (induction paths arbitrary: lastErr sent)
  case Nil
  show ?case by simp
next
  case (Cons p ps)
  then have "readFails E p" and rest: "\<forall>q \<in> set ps. readFails E q" by simp_all
  then show ?case
    by (simp add: inventoryLoop_fail_step Cons.IH [OF rest])
qed

lemma inventoryLoop_first_success:
  "\<forall>q \<in> set qs. readFails E q \<Longrightarrow> readGives E p xs \<Longrightarrow>
   inventoryLoop E (qs @ p # rs) lastErr sent =
     (sent @ map (\<lambda>p. requestFor E p ''GET'' None) (qs @ [p]), Resolved xs)"
proof (induction qs arbitrary: lastErr sent)
  case Nil
  then show ?case by (simp add: inventoryLoop_success_step)
next
  case (Cons q qs)
  then have "readFails E q" and rest: "\<forall>r \<in> set qs. readFails E r" by simp_all
  then show ?case
    by (simp add: inventoryLoop_fail_step Cons.IH [OF rest Cons.prems(2)])
qed

lemma inventoryLoop_in_order:
  "\<exists>n \<le> length paths.
     fst (inventoryLoop E paths lastErr sent) =
       sent @ map (\<lambda>p. requestFor E p ''GET'' None) (take n paths)"
proof (induction paths arbitrary: lastErr sent)
  case Nil
  show ?case by simp
next
  case (Cons p ps)
  show ?case
  proof (cases "readFails E p")
    case True
    let ?e = "case attempt E p ''GET'' None of Inl e \<Rightarrow> Some e | Inr d \<Rightarrow> lastErr"
    let ?s = "sent @ [requestFor E p ''GET'' None]"
    from Cons.IH [of ?e ?s] obtain n where
      n: "n \<le> length ps"
         "fst (inventoryLoop E ps ?e ?s) = ?s @ map (\<lambda>p. requestFor E p ''GET'' None) (take n ps)"
      by blast
    with True have "Suc n \<le> length (p # ps) \<and>
        fst (inventoryLoop E (p # ps) lastErr sent) =
          sent @ map (\<lambda>p. requestFor E p ''GET'' None) (take (Suc n) (p # ps))"
      by (simp add: inventoryLoop_fail_step)
    then show ?thesis by blast
  next
    case False
    then obtain xs where "readGives E p xs"
      by (auto simp: readFails_attempt readGives_attempt split: sum.splits)
    then have "Suc 0 \<le> length (p # ps) \<and>
        fst (inventoryLoop E (p # ps) lastErr sent) =
          sent @ map (\<lambda>p. requestFor E p ''GET'' None) (take (Suc 0) (p # ps))"
      by (simp add: inventoryLoop_success_step)
    then show ?thesis by blast
  qed
qed

lemma warningText_nonempty: "warningText lastErr \<noteq> []"
  by (simp add: warningText_def split: option.splits)

lemma fetchInventory_exhausted:
  "hasApiBase E \<Longrightarrow> \<forall>p \<in> set inventoryCandidates. readFails E p \<Longrightarrow>
   fetchInventory E sent =
     (sent @ map (\<lambda>p. requestFor E p ''GET'' None) inventoryCandidates,
      Inr \<lparr>source = Mock, items = getMockInventory,
           warning = Some (warningText (lastRaised E inventoryCandidates None))\<rparr>)"
  by (simp add: fetchInventory_def inventoryLoop_exhausted)

lemma fetchInventory_first_success:
  assumes "hasApiBase E" and "inventoryCandidates = qs @ p # rs"
    and "\<forall>q \<in> set qs. readFails E q" and "readGives E p xs"
  shows "fetchInventory E sent =
     (sent @ map (\<lambda>p. requestFor E p ''GET'' None) (qs @ [p]),
      Inr \<lparr>source = Api, items = xs, warning = None\<rparr>)"
proof -
  have "inventoryLoop E inventoryCandidates None sent =
      (sent @ map (\<lambda>p. requestFor E p ''GET'' None) (qs @ [p]), Resolved xs)"
    unfolding assms(2) using assms(3,4) by (rule inventoryLoop_first_success)
  with assms(1) show ?thesis by (simp add: fetchInventory_def)
qed

lemma status_404_readFails:
  "fetch E (requestFor E p ''GET'' None) = Responds res \<Longrightarrow> status res = 404 \<Longrightarrow> readFails E p"
  by (simp add: readFails_def ok_def)

lemma array_body_readGives:
  "fetch E (requestFor E p ''GET'' None) = Responds res \<Longrightarrow> ok res \<Longrightarrow>
   bodyText res = TextJson (JsonArr xs) \<Longrightarrow> readGives E p xs"
  by (simp add: readGives_def safeJson_def arrayItems_def)

lemma items_body_readGives:
  "fetch E (requestFor E p ''GET'' None) = Responds res \<Longrightarrow> ok res \<Longrightarrow>
   bodyText res = TextJson (JsonObj [(''items'', JsonArr xs)]) \<Longrightarrow> readGives E p xs"
  by (simp add: readGives_def safeJson_def arrayItems_def)

text \<open>
  Claim C3: the candidates of a read resolution are requested in their listed order,
  each at most once: the requests sent are those of a prefix of the list. The first
  candidate that gives an array ends the loop with that array, after the requests of
  the candidates before it and its own; \<open>fetchInventory\<close> then resolves with source
  \<open>api\<close>, the array, and no warning. In particular, of two candidates where the first
  answers with status 404 and the second with \<open>{items: [x, y]}\<close>, both are requested
  once and the result is \<open>[x, y]\<close>.
\<close>
theorem C3_candidates_in_order_first_success:
  "(\<exists>n \<le> length paths.
      fst (inventoryLoop E paths lastErr sent) =
        sent @ map (\<lambda>p. requestFor E p ''GET'' None) (take n paths)) \<and>
   ((\<forall>q \<in> set qs. readFails E q) \<and> readGives E p xs \<longrightarrow>
      inventoryLoop E (qs @ p # rs) lastErr sent =
        (sent @ map (\<lambda>p. requestFor E p ''GET'' None) (qs @ [p]), Resolved xs)) \<and>
   (hasApiBase E \<and> inventoryCandidates = qs' @ p' # rs' \<and>
    (\<forall>q \<in> set qs'. readFails E q) \<and> readGives E p' xs' \<longrightarrow>
      fetchInventory E sent =
        (sent @ map (\<lambda>p. requestFor E p ''GET'' None) (qs' @ [p']),
         Inr \<lparr>source = Api, items = xs', warning = None\<rparr>)) \<and>
   (fetch E (requestFor E A ''GET'' None) = Responds resA \<and> status resA = 404 \<and>
    fetch E (requestFor E B ''GET'' None) = Responds resB \<and> ok resB \<and>
    bodyText resB = TextJson (JsonObj [(''items'', JsonArr [x, y])]) \<longrightarrow>
      inventoryLoop E [A, B] None sent =
        (sent @ [requestFor E A ''GET'' None, requestFor E B ''GET'' None], Resolved [x, y]))"
proof (intro conjI impI)
  show "\<exists>n \<le> length paths.
      fst (inventoryLoop E paths lastErr sent) =
        sent @ map (\<lambda>p. requestFor E p ''GET'' None) (take n paths)"
    by (rule inventoryLoop_in_order)
  show "inventoryLoop E (qs @ p # rs) lastErr sent =
        (sent @ map (\<lambda>p. requestFor E p ''GET'' None) (qs @ [p]), Resolved xs)"
    if "(\<forall>q \<in> set qs. readFails E q) \<and> readGives E p xs"
    using that inventoryLoop_first_success [of qs E p xs rs lastErr sent] by blast
  show "fetchInventory E sent =
        (sent @ map (\<lambda>p. requestFor E p ''GET'' None) (qs' @ [p']),
         Inr \<lparr>source = Api, items = xs', warning = None\<rparr>)"
    if "hasApiBase E \<and> inventoryCandidates = qs' @ p' # rs' \<and>
        (\<forall>q \<in> set qs'. readFails E q) \<and> readGives E p' xs'"
    using that fetchInventory_first_success [of E qs' p' rs' xs' sent] by blast
  show "inventoryLoop E [A, B] None sent =
        (sent @ [requestFor E A ''GET'' None, requestFor E B ''GET'' None], Resolved [x, y])"
    if h: "fetch E (requestFor E A ''GET'' None) = Responds resA \<and> status resA = 404 \<and>
        fetch E (requestFor E B ''GET'' None) = Responds resB \<and> ok resB \<and>
        bodyText resB = TextJson (JsonObj [(''items'', JsonArr [x, y])])"
  proof -
    from h have "readFails E A" by (blast intro: status_404_readFails)
    moreover from h have "readGives E B [x, y]" by (blast intro: items_body_readGives)
    ultimately show ?thesis
      using inventoryLoop_first_success [of "[A]" E B "[x, y]" "[]" None sent] by simp
  qed
qed

text \<open>
  Claim C2: with a backend configured, when every candidate fails, \<open>fetchInventory\<close>
  resolves, after one request per candidate, with source \<open>mock\<close>, the built-in
  dataset and a warning that is not empty: the message of the last error raised, or
  the fixed text when no error was raised or its message is empty.
\<close>
theorem C2_read_exhaustion_falls_back:
  "hasApiBase E \<and> (\<forall>p \<in> set inventoryCandidates. readFails E p) \<longrightarrow>
     fetchInventory E sent =
       (sent @ map (\<lambda>p. requestFor E p ''GET'' None) inventoryCandidates,
        Inr \<lparr>source = Mock, items = getMockInventory,
             warning = Some (warningText (lastRaised E inventoryCandidates None))\<rparr>) \<and>
     warningText (lastRaised E inventoryCandidates None) \<noteq> [] \<and>
     (\<forall>e. lastRaised E inventoryCandidates None = Some e \<and> message e \<noteq> [] \<longrightarrow>
        warningText (lastRaised E inventoryCandidates None) = message e)"
  by (simp add: fetchInventory_exhausted warningText_nonempty) (simp add: warningText_def)


lemma hasApiBase_example: "hasApiBase partialBackend" "hasApiBase missingBackend"
  by (simp_all add: hasApiBase_def partialBackend_def missingBackend_def trim_def isSpace_def)

lemma requestFor_partial:
  "requestFor partialBackend ''/api/inventory'' m b =
     \<lparr>url = ''https://dealer.example/api/inventory'', httpMethod = m, requestBody = b\<rparr>"
  "requestFor partialBackend ''/inventory'' m b =
     \<lparr>url = ''https://dealer.example/inventory'', httpMethod = m, requestBody = b\<rparr>"
  by (simp_all add: requestFor_def hasApiBase_example)
     (simp_all add: partialBackend_def joinUrl_def)

lemma partial_first_fails: "readFails partialBackend ''/api/inventory''"
  by (simp add: readFails_def requestFor_partial)
     (simp add: partialBackend_def notFound_def ok_def)

lemma partial_second_gives: "readGives partialBackend ''/inventory'' [mockCar1, mockCar2]"
  by (simp add: readGives_def requestFor_partial)
     (simp add: partialBackend_def ok_def safeJson_def arrayItems_def)

text \<open>
  A backend that knows \<open>/inventory\<close> only: two requests, then the items it serves.
\<close>
theorem C3_candidates_in_order_first_success_witness:
  "fetchInventory partialBackend [] =
     ([\<lparr>url = ''https://dealer.example/api/inventory'', httpMethod = ''GET'', requestBody = None\<rparr>,
       \<lparr>url = ''https://dealer.example/inventory'', httpMethod = ''GET'', requestBody = None\<rparr>],
      Inr \<lparr>source = Api, items = [mockCar1, mockCar2], warning = None\<rparr>) \<and>
   inventoryLoop partialBackend [''/api/inventory'', ''/inventory''] None [] =
     ([\<lparr>url = ''https://dealer.example/api/inventory'', httpMethod = ''GET'', requestBody = None\<rparr>,
       \<lparr>url = ''https://dealer.example/inventory'', httpMethod = ''GET'', requestBody = None\<rparr>],
      Resolved [mockCar1, mockCar2])"
  using C3_candidates_in_order_first_success
    [of inventoryCandidates partialBackend None "[]"
        "[''/api/inventory'']" "''/inventory''" "[mockCar1, mockCar2]" "[''/api/cars'', ''/cars'']"
        "[''/api/inventory'']" "''/inventory''" "[''/api/cars'', ''/cars'']" "[mockCar1, mockCar2]"
        "''/api/inventory''" notFound "''/inventory''"
        "\<lparr>status = 200, statusText = ''OK'',
          bodyText = TextJson (JsonObj [(''items'', JsonArr [mockCar1, mockCar2])])\<rparr>"
        mockCar1 mockCar2]
  by (simp add: hasApiBase_example partial_first_fails partial_second_gives
      inventoryCandidates_def requestFor_partial)
     (simp add: partialBackend_def notFound_def ok_def)

lemma missing_fails: "readFails missingBackend p"
  by (simp add: readFails_def missingBackend_def notFound_def ok_def)

lemma decimal_404: "decimal 404 = ''404''"
  by (simp add: decimal.simps)

lemma missing_attempt:
  "attempt missingBackend p m b = Inl (HttpError ''Request failed (404 Not Found)'')"
  by (simp add: attempt_fetch missingBackend_def notFound_def ok_def safeJson_def
      failureMessage_def decimal_404)

lemma requestFor_missing:
  "requestFor missingBackend p m b =
     \<lparr>url = joinUrl ''https://dealer.example/'' p, httpMethod = m, requestBody = b\<rparr>"
  by (simp add: requestFor_def hasApiBase_example) (simp add: missingBackend_def)

text \<open>A backend that answers every request with status 404.\<close>
theorem C2_read_exhaustion_falls_back_witness:
  "fetchInventory missingBackend [] =
     ([\<lparr>url = ''https://dealer.example/api/inventory'', httpMethod = ''GET'', requestBody = None\<rparr>,
       \<lparr>url = ''https://dealer.example/inventory'', httpMethod = ''GET'', requestBody = None\<rparr>,
       \<lparr>url = ''https://dealer.example/api/cars'', httpMethod = ''GET'', requestBody = None\<rparr>,
       \<lparr>url = ''https://dealer.example/cars'', httpMethod = ''GET'', requestBody = None\<rparr>],
      Inr \<lparr>source = Mock, items = getMockInventory,
           warning = Some ''Request failed (404 Not Found)''\<rparr>)"
  using C2_read_exhaustion_falls_back [of missingBackend "[]"]
  by (simp add: hasApiBase_example missing_fails inventoryCandidates_def missing_attempt
      warningText_def requestFor_missing joinUrl_def)

declare leadLoop.simps(2) [simp del]

lemma leadLoop_fail_step:
  "writeFails E payload path \<Longrightarrow>
   leadLoop E payload (path # paths) lastErr sent =
     leadLoop E payload paths
       (case attempt E path ''POST'' (Some payload) of Inl e \<Rightarrow> Some e | Inr d \<Rightarrow> lastErr)
       (sent @ [requestFor E path ''POST'' (Some payload)])"
  by (auto simp: leadLoop.simps(2) requestJson_sent writeFails_def split: sum.splits)

lemma leadLoop_success_step:
  "\<not> writeFails E payload path \<Longrightarrow>
   \<exists>d. leadLoop E payload (path # paths) lastErr sent =
     (sent @ [requestFor E path ''POST'' (Some payload)], Resolved d)"
  by (auto simp: leadLoop.simps(2) requestJson_sent writeFails_def split: sum.splits)

lemma leadLoop_exhausted:
  "\<forall>p \<in> set paths. writeFails E payload p \<Longrightarrow> paths \<noteq> [] \<Longrightarrow>
   \<exists>e. leadLoop E payload paths lastErr sent =
         (sent @ map (\<lambda>p. requestFor E p ''POST'' (Some payload)) paths, Exhausted (Some e)) \<and>
       attempt E (last paths) ''POST'' (Some payload) = Inl e"
proof (induction paths arbitrary: lastErr sent)
  case Nil
  then show ?case by simp
next
  case (Cons p ps)
  then have f: "writeFails E payload p" and rest: "\<forall>q \<in> set ps. writeFails E payload q"
    by simp_all
  from f obtain e where e: "attempt E p ''POST'' (Some payload) = Inl e"
    by (auto simp: writeFails_def split: sum.splits)
  show ?case
  proof (cases ps)
    case Nil
    with f e show ?thesis by (simp add: leadLoop_fail_step)
  next
    case (Cons q qs)
    then have ne: "ps \<noteq> []" by simp
    from Cons.IH [OF rest ne,
        of "case attempt E p ''POST'' (Some payload) of Inl e \<Rightarrow> Some e | Inr d \<Rightarrow> lastErr"
           "sent @ [requestFor E p ''POST'' (Some payload)]"]
    obtain e' where
      "leadLoop E payload ps
         (case attempt E p ''POST'' (Some payload) of Inl e \<Rightarrow> Some e | Inr d \<Rightarrow> lastErr)
         (sent @ [requestFor E p ''POST'' (Some payload)]) =
       ((sent @ [requestFor E p ''POST'' (Some payload)]) @
          map (\<lambda>p. requestFor E p ''POST'' (Some payload)) ps, Exhausted (Some e'))"
      "attempt E (last ps) ''POST'' (Some payload) = Inl e'"
      by blast
    with f ne show ?thesis by (simp add: leadLoop_fail_step)
  qed
qed

lemma leadLoop_resolved:
  "snd (leadLoop E payload paths lastErr sent) = Resolved d \<Longrightarrow>
   \<exists>p \<in> set paths. \<not> writeFails E payload p"
proof (induction paths arbitrary: lastErr sent)
  case Nil
  then show ?case by simp
next
  case (Cons p ps)
  show ?case
  proof (cases "writeFails E payload p")
    case True
    with Cons.prems have "snd (leadLoop E payload ps
        (case attempt E p ''POST'' (Some payload) of Inl e \<Rightarrow> Some e | Inr d \<Rightarrow> lastErr)
        (sent @ [requestFor E p ''POST'' (Some payload)])) = Resolved d"
      by (simp add: leadLoop_fail_step)
    from Cons.IH [OF this] show ?thesis by simp
  next
    case False
    then show ?thesis by simp
  qed
qed

lemma submitLead_exhausted:
  assumes "hasApiBase E" and "\<forall>p \<in> set leadCandidates. writeFails E payload p"
  shows "\<exists>e. submitLead E payload sent =
           (sent @ map (\<lambda>p. requestFor E p ''POST'' (Some payload)) leadCandidates, Inl e) \<and>
         attempt E ''/contact'' ''POST'' (Some payload) = Inl e"
proof -
  have "leadCandidates \<noteq> []" and l: "last leadCandidates = ''/contact''"
    by (simp_all add: leadCandidates_def)
  from leadLoop_exhausted [OF assms(2) this(1), of None sent] obtain e where
    "leadLoop E payload leadCandidates None sent =
       (sent @ map (\<lambda>p. requestFor E p ''POST'' (Some payload)) leadCandidates, Exhausted (Some e))"
    "attempt E (last leadCandidates) ''POST'' (Some payload) = Inl e"
    by blast
  with assms(1) l show ?thesis by (simp add: submitLead_def)
qed

lemma submitLead_resolved:
  assumes "hasApiBase E" and "snd (submitLead E payload sent) = Inr r"
  shows "leadSource r = Api \<and> (\<exists>p \<in> set leadCandidates. \<not> writeFails E payload p)"
proof (cases "leadLoop E payload leadCandidates None sent")
  case (Pair sent' res)
  show ?thesis
  proof (cases res)
    case (Resolved d)
    with Pair have "snd (leadLoop E payload leadCandidates None sent) = Resolved d" by simp
    then have "\<exists>p \<in> set leadCandidates. \<not> writeFails E payload p" by (rule leadLoop_resolved)
    moreover from assms Pair Resolved have "leadSource r = Api"
      by (auto simp: submitLead_def)
    ultimately show ?thesis by blast
  next
    case (Exhausted lastErr)
    with assms Pair show ?thesis by (simp add: submitLead_def)
  qed
qed

text \<open>
  Claim C4: with a backend configured, when every lead candidate fails, \<open>submitLead\<close>
  rejects, after one request per candidate, with the error of the last candidate,
  \<open>/contact\<close>; and whenever it resolves, the result comes from the backend and some
  candidate did not fail: no mock result stands in for a failed write.
\<close>
theorem C4_write_exhaustion_raises_last_error:
  "(hasApiBase E \<and> (\<forall>p \<in> set leadCandidates. writeFails E payload p) \<longrightarrow>
      (\<exists>e. submitLead E payload sent =
              (sent @ map (\<lambda>p. requestFor E p ''POST'' (Some payload)) leadCandidates, Inl e) \<and>
            attempt E ''/contact'' ''POST'' (Some payload) = Inl e)) \<and>
   (hasApiBase E \<and> snd (submitLead E payload sent) = Inr r \<longrightarrow>
      leadSource r = Api \<and> (\<exists>p \<in> set leadCandidates. \<not> writeFails E payload p))"
  using submitLead_exhausted [of E payload sent] submitLead_resolved [of E payload sent r]
  by blast

lemma missing_write_fails: "writeFails missingBackend payload p"
  by (simp add: writeFails_def missing_attempt)

text \<open>A lead posted to the backend that answers every request with status 404.\<close>
theorem C4_write_exhaustion_raises_last_error_witness:
  "submitLead missingBackend (JsonObj [(''name'', JsonStr ''Ada'')]) [] =
     ([\<lparr>url = ''https://dealer.example/api/leads'', httpMethod = ''POST'',
         requestBody = Some (JsonObj [(''name'', JsonStr ''Ada'')])\<rparr>,
       \<lparr>url = ''https://dealer.example/leads'', httpMethod = ''POST'',
         requestBody = Some (JsonObj [(''name'', JsonStr ''Ada'')])\<rparr>,
       \<lparr>url = ''https://dealer.example/api/contact'', httpMethod = ''POST'',
         requestBody = Some (JsonObj [(''name'', JsonStr ''Ada'')])\<rparr>,
       \<lparr>url = ''https://dealer.example/contact'', httpMethod = ''POST'',
         requestBody = Some (JsonObj [(''name'', JsonStr ''Ada'')])\<rparr>],
      Inl (HttpError ''Request failed (404 Not Found)''))"
  using C4_write_exhaustion_raises_last_error
    [of missingBackend "JsonObj [(''name'', JsonStr ''Ada'')]" "[]"]
  by (auto simp: hasApiBase_example missing_write_fails missing_attempt leadCandidates_def
      requestFor_missing joinUrl_def)


section \<open>Properties of the lead form\<close>

lemma remaining_antimono:
  assumes "js_le e1 e2" and "\<not> js_less (Fin 0) (js_minus (Fin d) e1)"
  shows "\<not> js_less (Fin 0) (js_minus (Fin d) e2)"
proof (cases e1)
  case (Fin a)
  note e1 = this
  show ?thesis
  proof (cases e2)
    case (Fin b)
    with e1 assms(1) have "d - b \<le> d - a" by simp
    then have "js_le (round64 (d - b)) (round64 (d - a))" by (rule round64_mono)
    with assms(2) e1 Fin show ?thesis
      by (cases "round64 (d - b)"; cases "round64 (d - a)") auto
  qed (use e1 assms in simp_all)
next
  case PosInf
  with assms show ?thesis by (cases e2) simp_all
qed (use assms in simp_all)

lemma cooldown_stays_elapsed:
  assumes "getLeadSubmissionCooldownRemainingMs N st t1 None = Inr r1"
    and "\<not> js_less (Fin 0) r1" and "t1 \<le> t2"
    and "getLeadSubmissionCooldownRemainingMs N st t2 None = Inr r2"
  shows "\<not> js_less (Fin 0) r2"
proof (cases st)
  case Unavailable
  with assms(4) show ?thesis by (auto simp: cooldown_unavailable)
next
  case (Available m)
  show ?thesis
  proof (cases "m STORAGE_KEY")
    case None
    with Available assms(4) show ?thesis by (auto simp: cooldown_absent)
  next
    case (Some raw)
    show ?thesis
    proof (cases "N raw")
      case (Fin t)
      show ?thesis
      proof (cases "raw = []")
        case True
        with Available Some assms(4) show ?thesis by (auto simp: cooldown_empty)
      next
        case False
        let ?e1 = "round64 (t1 - t)" and ?e2 = "round64 (t2 - t)"
        let ?d = "Fin DEFAULT_WINDOW_MS"
        have le: "js_le ?e1 ?e2" using assms(3) by (intro round64_mono) simp
        have r1: "r1 = (if js_less (Fin 0) (js_minus ?d ?e1) then js_minus ?d ?e1 else Fin 0)"
          using assms(1) Available Some Fin False
          by (simp add: cooldown_result effectiveWindow_def cooldownRemaining_def getItem_def Let_def)
        have r2: "r2 = (if js_less (Fin 0) (js_minus ?d ?e2) then js_minus ?d ?e2 else Fin 0)"
          using assms(4) Available Some Fin False
          by (simp add: cooldown_result effectiveWindow_def cooldownRemaining_def getItem_def Let_def)
        from r1 assms(2) have "\<not> js_less (Fin 0) (js_minus ?d ?e1)"
          by (simp split: if_splits)
        with le have "\<not> js_less (Fin 0) (js_minus ?d ?e2)" by (rule remaining_antimono)
        with r2 show ?thesis by simp
      qed
    qed (use Available Some assms(4) in \<open>auto simp: cooldown_corrupt\<close>)
  qed
qed

lemma handleLeadSubmit_cases:
  assumes "handleLeadSubmit N S t ui = Inr ui'" and "leadStatus ui' = Submitting"
  shows "localStorage ui' = localStorage ui \<and>
         (\<exists>r. getLeadSubmissionCooldownRemainingMs N (localStorage ui) t None = Inr r \<and>
              \<not> js_less (Fin 0) r) \<and>
         (leadStatus ui \<noteq> Submitting \<longrightarrow>
            submitted ui' = submitted ui @
              [\<lparr>payloadForm = leadForm ui, payloadSource = ''landing_page'', createdAt = t\<rparr>])"
  using assms
  by (auto simp: handleLeadSubmit_def split: sum.splits if_splits)

text \<open>
  Claim C7: a submit requested while the first one is still in flight changes nothing.
  If a submit at \<open>t1\<close> leaves the form in \<open>submitting\<close>, a submit at a later \<open>t2\<close>
  returns the same state: no further payload reaches \<open>submitLead\<close>, so when the first
  submit started from another status, exactly its one payload was handed over.
\<close>
theorem C7_second_submit_is_noop:
  "handleLeadSubmit N S t1 ui = Inr ui1 \<and> leadStatus ui1 = Submitting \<and> t1 \<le> t2 \<longrightarrow>
     handleLeadSubmit N S t2 ui1 = Inr ui1 \<and>
     (leadStatus ui \<noteq> Submitting \<longrightarrow>
        submitted ui1 = submitted ui @
          [\<lparr>payloadForm = leadForm ui, payloadSource = ''landing_page'', createdAt = t1\<rparr>])"
proof (intro impI)
  assume h: "handleLeadSubmit N S t1 ui = Inr ui1 \<and> leadStatus ui1 = Submitting \<and> t1 \<le> t2"
  from h handleLeadSubmit_cases [of N S t1 ui ui1] obtain r1 where
    st: "localStorage ui1 = localStorage ui" and
    r1: "getLeadSubmissionCooldownRemainingMs N (localStorage ui) t1 None = Inr r1"
        "\<not> js_less (Fin 0) r1" and
    sub: "leadStatus ui \<noteq> Submitting \<longrightarrow>
        submitted ui1 = submitted ui @
          [\<lparr>payloadForm = leadForm ui, payloadSource = ''landing_page'', createdAt = t1\<rparr>]"
    by blast
  obtain r2 where r2: "getLeadSubmissionCooldownRemainingMs N (localStorage ui) t2 None = Inr r2"
    using cooldown_nonneg by blast
  from r1 h r2 have "\<not> js_less (Fin 0) r2"
    using cooldown_stays_elapsed by blast
  with r2 st h have "handleLeadSubmit N S t2 ui1 = Inr ui1"
    by (simp add: handleLeadSubmit_def)
  with sub show "handleLeadSubmit N S t2 ui1 = Inr ui1 \<and>
     (leadStatus ui \<noteq> Submitting \<longrightarrow>
        submitted ui1 = submitted ui @
          [\<lparr>payloadForm = leadForm ui, payloadSource = ''landing_page'', createdAt = t1\<rparr>])"
    by blast
qed

lemma adaForm_valid: "validateLeadForm S adaForm = Inr []"
  by (simp add: validateLeadForm_def adaForm_def validateRequired_def validateEmail_def
      validatePhoneOptional_def js_or_def trim_def isSpace_def EMAIL_RE_def notSpaceAt_def
      atLeast_times_numeral)

lemma freshUi_first_submit:
  "handleLeadSubmit N S t freshUi =
     Inr (freshUi\<lparr>leadStatus := Submitting,
            submitted := [\<lparr>payloadForm = adaForm, payloadSource = ''landing_page'', createdAt = t\<rparr>]\<rparr>)"
  by (simp add: handleLeadSubmit_def freshUi_def cooldown_absent adaForm_valid)

text \<open>A valid form submitted twice, 250 ms apart.\<close>
theorem C7_second_submit_is_noop_witness:
  "handleLeadSubmit decimalNumber decimalString 1700000000250
     (freshUi\<lparr>leadStatus := Submitting,
        submitted := [\<lparr>payloadForm = adaForm, payloadSource = ''landing_page'',
                      createdAt = 1700000000000\<rparr>]\<rparr>) =
   Inr (freshUi\<lparr>leadStatus := Submitting,
          submitted := [\<lparr>payloadForm = adaForm, payloadSource = ''landing_page'',
                        createdAt = 1700000000000\<rparr>]\<rparr>)"
  using C7_second_submit_is_noop [of decimalNumber decimalString 1700000000000 freshUi
      "freshUi\<lparr>leadStatus := Submitting,
         submitted := [\<lparr>payloadForm = adaForm, payloadSource = ''landing_page'',
                       createdAt = 1700000000000\<rparr>]\<rparr>" 1700000000250]
  by (simp add: freshUi_first_submit)

end
